theory Spec2Isabelle
  imports Main "HOL-Library.Word"
begin

unbundle bit_operations_syntax

section \<open>cupdi: the flashing and verification workflow of \<^verbatim>\<open>cupdi.c\<close>\<close>

text \<open>
  The theory embeds the functions of \<^verbatim>\<open>src/cupdi.c\<close>: \<^verbatim>\<open>load_hex\<close>, \<^verbatim>\<open>verify_hex\<close>,
  \<^verbatim>\<open>updi_flash\<close>, \<^verbatim>\<open>updi_save\<close>, \<^verbatim>\<open>updi_fuse\<close>, \<^verbatim>\<open>updi_read\<close>, \<^verbatim>\<open>updi_write\<close>,
  \<^verbatim>\<open>updi_erase\<close> and the part of \<^verbatim>\<open>main\<close> that follows argument parsing.

  Conventions.
  \<^item> \<^verbatim>\<open>u32\<close> and \<^verbatim>\<open>u8\<close> values are words: arithmetic wraps as in C.
  \<^item> C \<^verbatim>\<open>int\<close> locals (\<^verbatim>\<open>i\<close>, \<^verbatim>\<open>j\<close>, \<^verbatim>\<open>len\<close>, \<^verbatim>\<open>address\<close>, \<^verbatim>\<open>result\<close>) are
    mathematical integers; the conversions \<^verbatim>\<open>(int)strtol(...)\<close> and
    \<^verbatim>\<open>int\<close> to \<^verbatim>\<open>size_t\<close> are written out. Signed overflow is undefined in C; it
    needs an address next to \<^verbatim>\<open>INT_MAX\<close> or more than \<open>2^31\<close> tokens.
  \<^item> Everything outside \<^verbatim>\<open>cupdi.c\<close> (the NVM driver, the Intel-HEX reader and
    writer, \<^verbatim>\<open>str_split\<close>, \<^verbatim>\<open>malloc\<close>) is a field of an environment record over
    an arbitrary state type; the theorems hold for every environment.
  \<^item> Every external call is appended to a trace, so that claims about which
    device operations are issued, and in which order, are statements about
    the trace.
\<close>

subsection \<open>Data\<close>

type_synonym u8 = "8 word"
type_synonym u32 = "32 word"

text \<open>\<^verbatim>\<open>flash_info_t\<close>, as \<^verbatim>\<open>load_hex\<close> and \<^verbatim>\<open>updi_save\<close> read it.\<close>

record flash_info_t =
  flash_start :: u32
  flash_size :: u32
  flash_pagesize :: u32

text \<open>
  \<^verbatim>\<open>hex_data_t\<close> is declared in \<^verbatim>\<open>ihex/ihex.h\<close>, which is not part of the sources at
  hand; these are the fields \<^verbatim>\<open>cupdi.c\<close> reads and writes. \<^verbatim>\<open>data\<close> is the byte
  buffer the pointer of that name refers to.
\<close>

record hex_data_t =
  data :: "u8 list"
  len :: u32
  offset :: u32
  total_size :: u32
  actual_size :: u32
  addr_from :: u32
  addr_to :: u32

text \<open>\<^verbatim>\<open>memset(&hinfo, 0, sizeof(hinfo))\<close>: all fields zero, no buffer.\<close>

definition hex_zero :: hex_data_t where
  "hex_zero = \<lparr>data = [], len = 0, offset = 0, total_size = 0, actual_size = 0,
                addr_from = 0, addr_to = 0\<rparr>"

text \<open>The heap blocks of \<^verbatim>\<open>cupdi.c\<close>, named after the pointer that holds them.\<close>

datatype buffer = Dhex | Rdata | Buf

text \<open>
  The calls that leave \<^verbatim>\<open>cupdi.c\<close>, with the arguments the claims speak of.
  \<open>Mismatch i e a\<close> is the diagnostic of \<^verbatim>\<open>verify_hex\<close> ("check flash data failed
  at i, e-a"); the other diagnostics carry no data and are not recorded.
\<close>

datatype event =
    Nvm_init
  | Get_device_info
  | Enter_progmode
  | Unlock_device
  | Chip_erase
  | Write_fuse int u8
  | Get_flash_info
  | Read_flash u32 nat
  | Write_flash u32 "u8 list"
  | Read_mem int int
  | Write_mem int "u8 list"
  | Leave_progmode
  | Nvm_deinit
  | Get_hex_info string
  | Save_hex_info string hex_data_t
  | Malloc buffer nat
  | Free buffer
  | Mismatch nat u8 u8

text \<open>
  The environment. Each driver function returns its \<^verbatim>\<open>int\<close> result (0 is success)
  and the next state. A read returns the bytes it stores as a function of the
  offset, so that the buffer always has the length the caller asked for.
  \<^verbatim>\<open>malloc\<close> returns whether the block was obtained. \<^verbatim>\<open>str_split\<close> returns \<open>None\<close>
  for a \<^verbatim>\<open>NULL\<close> result and the tokens before the terminating \<^verbatim>\<open>NULL\<close> otherwise.
  \<^verbatim>\<open>sizeof_hex_data\<close> is \<^verbatim>\<open>sizeof(hex_data_t)\<close> and \<^verbatim>\<open>ERROR_PTR\<close> the constant of
  that name; both are declared outside \<^verbatim>\<open>cupdi.c\<close>.
\<close>

record 's env =
  str_split :: "string \<Rightarrow> char \<Rightarrow> string list option"
  sizeof_hex_data :: nat
  ERROR_PTR :: int
  malloc :: "nat \<Rightarrow> 's \<Rightarrow> bool \<times> 's"
  get_hex_info :: "string \<Rightarrow> hex_data_t \<Rightarrow> 's \<Rightarrow> (int \<times> hex_data_t) \<times> 's"
  save_hex_info :: "string \<Rightarrow> hex_data_t \<Rightarrow> 's \<Rightarrow> int \<times> 's"
  get_chip_info :: "string \<Rightarrow> bool"
  updi_nvm_init :: "string \<Rightarrow> int \<Rightarrow> 's \<Rightarrow> bool \<times> 's"
  updi_nvm_deinit :: "'s \<Rightarrow> unit \<times> 's"
  nvm_get_device_info :: "'s \<Rightarrow> int \<times> 's"
  nvm_enter_progmode :: "'s \<Rightarrow> int \<times> 's"
  nvm_leave_progmode :: "'s \<Rightarrow> int \<times> 's"
  nvm_unlock_device :: "'s \<Rightarrow> int \<times> 's"
  nvm_chip_erase :: "'s \<Rightarrow> int \<times> 's"
  nvm_write_fuse :: "int \<Rightarrow> u8 \<Rightarrow> 's \<Rightarrow> int \<times> 's"
  nvm_get_flash_info :: "'s \<Rightarrow> (int \<times> flash_info_t) \<times> 's"
  nvm_read_flash :: "u32 \<Rightarrow> nat \<Rightarrow> 's \<Rightarrow> (int \<times> (nat \<Rightarrow> u8)) \<times> 's"
  nvm_write_flash :: "u32 \<Rightarrow> u8 list \<Rightarrow> 's \<Rightarrow> int \<times> 's"
  nvm_read_mem :: "int \<Rightarrow> int \<Rightarrow> 's \<Rightarrow> (int \<times> (nat \<Rightarrow> u8)) \<times> 's"
  nvm_write_mem :: "int \<Rightarrow> u8 list \<Rightarrow> 's \<Rightarrow> int \<times> 's"

text \<open>The state of a run: the environment's state and the calls made so far.\<close>

record 's world =
  dev :: 's
  trace :: "event list"

definition call :: "event \<Rightarrow> ('s \<Rightarrow> 'r \<times> 's) \<Rightarrow> 's world \<Rightarrow> 'r \<times> 's world" where
  "call ev f w = (case f (dev w) of (r, s') \<Rightarrow> (r, \<lparr>dev = s', trace = trace w @ [ev]\<rparr>))"

definition record_ev :: "event \<Rightarrow> 's world \<Rightarrow> 's world" where
  "record_ev ev w = \<lparr>dev = dev w, trace = trace w @ [ev]\<rparr>"

subsection \<open>\<^verbatim>\<open>load_hex\<close> and \<^verbatim>\<open>unload_hex\<close>\<close>

text \<open>
  \<^verbatim>\<open>load_hex\<close> returns \<^verbatim>\<open>NULL\<close> at four places and tells them apart by its diagnostic
  only; the model names the place. The local \<^verbatim>\<open>len\<close>, the number of bytes to
  allocate, is written \<open>len_alloc\<close>; it is a \<^verbatim>\<open>u32\<close>, so the sum is taken modulo
  \<open>2^32\<close>.
\<close>

datatype load_error =
    Hex_info_failed    \<comment> \<open>"get_hex_info failed", first call\<close>
  | Addr_over_flash    \<comment> \<open>"hex addr(from ~ to) over flash size"\<close>
  | Malloc_failed      \<comment> \<open>"malloc hexi memory failed"\<close>
  | Hex_load_failed    \<comment> \<open>"get_hex_info failed", second call\<close>

definition load_hex ::
  "'s env \<Rightarrow> string \<Rightarrow> flash_info_t \<Rightarrow> 's world \<Rightarrow> (load_error + hex_data_t) \<times> 's world" where
  "load_hex env file iflash w =
    (let mask = flash_pagesize iflash - 1 in
     case call (Get_hex_info file) (get_hex_info env file hex_zero) w of ((result, hinfo), w1) \<Rightarrow>
     if result \<noteq> 0 then (Inl Hex_info_failed, w1)
     else
       let from = addr_from hinfo AND NOT mask;
           to = ((addr_to hinfo + mask) AND NOT mask) - 1;
           size = to - from + 1;
           off = addr_from hinfo AND mask;
           len_alloc = size + word_of_nat (sizeof_hex_data env);
           from' = (if from < flash_start iflash then from + flash_start iflash else from);
           to' = (if from < flash_start iflash then to + flash_start iflash else to)
       in
       if to' \<ge> flash_start iflash + flash_size iflash then (Inl Addr_over_flash, w1)
       else
         case call (Malloc Dhex (unat len_alloc)) (malloc env (unat len_alloc)) w1 of (ok, w2) \<Rightarrow>
         if \<not> ok then (Inl Malloc_failed, w2)
         else
           let dhex = hinfo\<lparr>data := replicate (unat size) 0xff, len := size, offset := off\<rparr> in
           case call (Get_hex_info file) (get_hex_info env file dhex) w2 of ((result, dhex'), w3) \<Rightarrow>
           if result \<noteq> 0 then (Inl Hex_load_failed, record_ev (Free Dhex) w3)
           else (Inr (dhex'\<lparr>addr_from := from', addr_to := to'\<rparr>), w3))"

text \<open>\<^verbatim>\<open>unload_hex\<close>: frees the block unless the pointer is \<^verbatim>\<open>NULL\<close>.\<close>

definition unload_hex :: "hex_data_t option \<Rightarrow> 's world \<Rightarrow> 's world" where
  "unload_hex dhex_ptr w = (case dhex_ptr of None \<Rightarrow> w | Some _ \<Rightarrow> record_ev (Free Dhex) w)"

subsection \<open>\<^verbatim>\<open>verify_hex\<close>\<close>

text \<open>
  The comparison loop \<^verbatim>\<open>for (i = 0; i < dhex->len; i++) if (data[i] != rdata[i]) break;\<close>
  returns the value of \<^verbatim>\<open>i\<close> at which it stops. The counter is a natural number
  here; the C \<^verbatim>\<open>int\<close> covers it for images below \<open>2^31\<close> bytes. The diagnostic of
  the loop body is recorded by \<^verbatim>\<open>verify_hex\<close> below, behind the loop.
\<close>

function verify_loop :: "u8 list \<Rightarrow> u8 list \<Rightarrow> nat \<Rightarrow> nat \<Rightarrow> nat" where
  "verify_loop d r i n =
     (if i < n then (if d ! i \<noteq> r ! i then i else verify_loop d r (Suc i) n) else i)"
  by pat_completeness auto
termination
  by (relation "measure (\<lambda>(d, r, i, n). n - i)") auto

definition verify_hex :: "'s env \<Rightarrow> hex_data_t \<Rightarrow> 's world \<Rightarrow> int \<times> 's world" where
  "verify_hex env dhex w =
    (let n = unat (len dhex) in
     case call (Malloc Rdata n) (malloc env n) w of (ok, w1) \<Rightarrow>
     if \<not> ok then (- 2, w1)
     else
       case call (Read_flash (addr_from dhex) n) (nvm_read_flash env (addr_from dhex) n) w1
       of ((result, rd), w2) \<Rightarrow>
       if result \<noteq> 0 then (- 3, record_ev (Free Rdata) w2)
       else
         let rdata = map rd [0..<n];
             i = verify_loop (data dhex) rdata 0 n;
             w3 = (if i < n then record_ev (Mismatch i (data dhex ! i) (rdata ! i)) w2 else w2)
         in if i < n then (- 4, record_ev (Free Rdata) w3)
            else (0, record_ev (Free Rdata) w3))"

subsection \<open>\<^verbatim>\<open>updi_flash\<close>, \<^verbatim>\<open>updi_save\<close>, \<^verbatim>\<open>updi_erase\<close>\<close>

text \<open>
  \<^verbatim>\<open>nvm_write_flash(nvm_ptr, dhex->addr_from, dhex->data, dhex->len)\<close> passes the first
  \<^verbatim>\<open>len\<close> bytes of the buffer.
\<close>

definition updi_flash :: "'s env \<Rightarrow> string \<Rightarrow> bool \<Rightarrow> 's world \<Rightarrow> int \<times> 's world" where
  "updi_flash env file prog w =
    (case call Get_flash_info (nvm_get_flash_info env) w of ((result, flash), w1) \<Rightarrow>
     if result \<noteq> 0 then (- 4, unload_hex None w1)
     else
       case load_hex env file flash w1 of
         (Inl _, w2) \<Rightarrow> (- 2, w2)
       | (Inr dhex, w2) \<Rightarrow>
           (case
              (if prog then
                 (case call Chip_erase (nvm_chip_erase env) w2 of (result, w3) \<Rightarrow>
                  if result \<noteq> 0 then (- 3, w3)
                  else
                    let bytes = take (unat (len dhex)) (data dhex) in
                    case call (Write_flash (addr_from dhex) bytes)
                              (nvm_write_flash env (addr_from dhex) bytes) w3
                    of (result, w4) \<Rightarrow> if result \<noteq> 0 then (- 3, w4) else (0, w4))
               else (0, w2))
            of (result, w5) \<Rightarrow>
              if result \<noteq> 0 then (result, unload_hex (Some dhex) w5)
              else
                case verify_hex env dhex w5 of (result, w6) \<Rightarrow>
                if result \<noteq> 0 then (- 3, unload_hex (Some dhex) w6)
                else (0, unload_hex (Some dhex) w6)))"

text \<open>
  The conversions of \<^verbatim>\<open>updi_save\<close> and \<^verbatim>\<open>updi_read\<close>, for the LP64 data model:
  a \<^verbatim>\<open>size_t\<close> or \<^verbatim>\<open>long\<close> stored in an \<^verbatim>\<open>int\<close> keeps its low 32 bits, read as two's
  complement; an \<^verbatim>\<open>int\<close> passed as \<^verbatim>\<open>size_t\<close> is taken modulo \<open>2^64\<close>.
\<close>

definition to_int :: "int \<Rightarrow> int" where
  "to_int v = (v + 2 ^ 31) mod 2 ^ 32 - 2 ^ 31"

definition to_size_t :: "int \<Rightarrow> nat" where
  "to_size_t v = nat (v mod 2 ^ 64)"

definition new_file_posfix :: string where
  "new_file_posfix = ''.save''"

text \<open>
  \<^verbatim>\<open>updi_save\<close>. One block holds the header, the data and the new file name; the
  name is built behind the data by two \<^verbatim>\<open>strcat\<close>s.
\<close>

definition updi_save :: "'s env \<Rightarrow> string \<Rightarrow> 's world \<Rightarrow> int \<times> 's world" where
  "updi_save env file w =
    (case call Get_flash_info (nvm_get_flash_info env) w of ((result, flash), w1) \<Rightarrow>
     if result \<noteq> 0 then (- 2, w1)
     else
       let size = to_int (int (unat (flash_size flash) + sizeof_hex_data env + length file
                               + length new_file_posfix + 1))
       in
       case call (Malloc Dhex (to_size_t size)) (malloc env (to_size_t size)) w1 of (ok, w2) \<Rightarrow>
       if \<not> ok then (- 3, w2)
       else
         let dhex = hex_zero\<lparr>len := flash_size flash, offset := 0,
                             total_size := flash_size flash, actual_size := flash_size flash,
                             addr_from := 0, addr_to := flash_size flash - 1\<rparr>;
             n = unat (flash_size flash)
         in
         case call (Read_flash (flash_start flash) n) (nvm_read_flash env (flash_start flash) n) w2
         of ((result, rd), w3) \<Rightarrow>
         if result \<noteq> 0 then (- 4, record_ev (Free Dhex) w3)
         else
           let dhex = dhex\<lparr>data := map rd [0..<n]\<rparr>;
               new_file = ([] @ file) @ new_file_posfix
           in
           case call (Save_hex_info new_file dhex) (save_hex_info env new_file dhex) w3
           of (result, w4) \<Rightarrow>
           if result \<noteq> 0 then (- 5, record_ev (Free Dhex) w4)
           else (0, record_ev (Free Dhex) w4))"

definition updi_erase :: "'s env \<Rightarrow> 's world \<Rightarrow> int \<times> 's world" where
  "updi_erase env w =
    (case call Chip_erase (nvm_chip_erase env) w of (result, w1) \<Rightarrow>
     if result \<noteq> 0 then (- 2, w1) else (0, w1))"

subsection \<open>\<^verbatim>\<open>strtol\<close>\<close>

text \<open>
  \<^verbatim>\<open>strtol(s, NULL, base)\<close> of the C library, after ISO C 7.22.1.4, for a 64-bit
  \<^verbatim>\<open>long\<close>: white space is skipped, then an optional sign, for base 16 an optional
  \<^verbatim>\<open>0x\<close> or \<^verbatim>\<open>0X\<close>, then the longest run of digits of the base; letters count as
  digits from 10 in either case. No digits give 0; a value out of range gives
  \<^verbatim>\<open>LONG_MAX\<close> or \<^verbatim>\<open>LONG_MIN\<close>.
\<close>

definition isspace :: "char \<Rightarrow> bool" where
  "isspace c = (let n = (of_char c :: nat) in n = 32 \<or> (9 \<le> n \<and> n \<le> 13))"

definition digit_of :: "char \<Rightarrow> nat option" where
  "digit_of c =
     (let n = (of_char c :: nat) in
      if 48 \<le> n \<and> n \<le> 57 then Some (n - 48)
      else if 97 \<le> n \<and> n \<le> 122 then Some (n - 87)
      else if 65 \<le> n \<and> n \<le> 90 then Some (n - 55)
      else None)"

fun digits_val :: "nat \<Rightarrow> string \<Rightarrow> nat \<Rightarrow> nat" where
  "digits_val b [] acc = acc"
| "digits_val b (c # cs) acc =
     (case digit_of c of
        None \<Rightarrow> acc
      | Some d \<Rightarrow> if d < b then digits_val b cs (acc * b + d) else acc)"

definition LONG_MAX :: int where
  "LONG_MAX = 2 ^ 63 - 1"

definition LONG_MIN :: int where
  "LONG_MIN = - (2 ^ 63)"

fun skip_sign :: "string \<Rightarrow> bool \<times> string" where
  "skip_sign [] = (False, [])"
| "skip_sign (c # cs) =
     (if c = CHR ''-'' then (True, cs) else if c = CHR ''+'' then (False, cs) else (False, c # cs))"

fun skip_0x :: "nat \<Rightarrow> string \<Rightarrow> string" where
  "skip_0x base (c # x # cs) =
     (if base = 16 \<and> c = CHR ''0'' \<and> (x = CHR ''x'' \<or> x = CHR ''X'') then cs else c # x # cs)"
| "skip_0x base cs = cs"

definition strtol :: "string \<Rightarrow> nat \<Rightarrow> int" where
  "strtol s base =
     (case skip_sign (dropWhile isspace s) of (neg, s1) \<Rightarrow>
      let v = int (digits_val base (skip_0x base s1) 0)
      in if neg then max LONG_MIN (- v) else min LONG_MAX v)"

text \<open>\<^verbatim>\<open>toupper\<close> of the C library in the "C" locale, to state that a parse ignores case.\<close>

definition toupper :: "char \<Rightarrow> char" where
  "toupper c = (let n = (of_char c :: nat) in if 97 \<le> n \<and> n \<le> 122 then char_of (n - 32) else c)"

subsection \<open>\<^verbatim>\<open>updi_fuse\<close>\<close>

text \<open>
  The token loop of \<^verbatim>\<open>updi_fuse\<close>: \<^verbatim>\<open>i\<close> counts the tokens, token 0 sets \<^verbatim>\<open>idx\<close>
  and token 1 sets \<^verbatim>\<open>value\<close>. Both are uninitialised in C before that; the model
  starts them at 0, and they are read only when \<^verbatim>\<open>i == 2\<close>.
\<close>

fun fuse_loop :: "string list \<Rightarrow> nat \<Rightarrow> int \<Rightarrow> int \<Rightarrow> nat \<times> int \<times> int" where
  "fuse_loop [] i idx val = (i, idx, val)"
| "fuse_loop (t # ts) i idx val =
     (if i = 0 then fuse_loop ts (Suc i) (to_int (strtol t 10)) val
      else if i = 1 then fuse_loop ts (Suc i) idx (to_int (strtol t 16))
      else fuse_loop ts (Suc i) idx val)"

definition updi_fuse :: "'s env \<Rightarrow> string \<Rightarrow> 's world \<Rightarrow> int \<times> 's world" where
  "updi_fuse env fuses w =
    (case str_split env fuses CHR '':'' of
       None \<Rightarrow> (- 2, w)
     | Some tokens \<Rightarrow>
         (case fuse_loop tokens 0 0 0 of (i, idx, val) \<Rightarrow>
          if i = 2 then
            (case call (Write_fuse idx (word_of_int val)) (nvm_write_fuse env idx (word_of_int val)) w
             of (result, w1) \<Rightarrow> if result \<noteq> 0 then (- 3, w1) else (0, w1))
          else (- 4, w)))"

subsection \<open>\<^verbatim>\<open>updi_read\<close>\<close>

text \<open>The local \<^verbatim>\<open>len\<close> is written \<open>ln\<close>: \<open>len\<close> is the field of \<^verbatim>\<open>hex_data_t\<close>.\<close>

definition UPDI_READ_STROKEN_LEN :: int where
  "UPDI_READ_STROKEN_LEN = 255"

fun read_loop :: "string list \<Rightarrow> nat \<Rightarrow> int \<Rightarrow> int \<Rightarrow> nat \<times> int \<times> int" where
  "read_loop [] i address ln = (i, address, ln)"
| "read_loop (t # ts) i address ln =
     (if i = 0 then read_loop ts (Suc i) (to_int (strtol t 16)) ln
      else if i = 1 then
        (let ln = to_int (strtol t 10);
             ln = (if ln > UPDI_READ_STROKEN_LEN then UPDI_READ_STROKEN_LEN else ln)
         in read_loop ts (Suc i) address ln)
      else read_loop ts (Suc i) address ln)"

definition updi_read :: "'s env \<Rightarrow> string \<Rightarrow> 's world \<Rightarrow> int \<times> 's world" where
  "updi_read env cmd w =
    (case str_split env cmd CHR '';'' of
       None \<Rightarrow> (- 2, w)
     | Some tokens \<Rightarrow>
         (case read_loop tokens 0 0 0 of (i, address, ln) \<Rightarrow>
          if i = 2 then
            (case call (Malloc Buf (to_size_t ln)) (malloc env (to_size_t ln)) w of (ok, w1) \<Rightarrow>
             if \<not> ok then (- 3, w1)
             else
               case call (Read_mem address ln) (nvm_read_mem env address ln) w1
               of ((result, rd), w2) \<Rightarrow>
               (if result \<noteq> 0 then - 4 else result, record_ev (Free Buf) w2))
          else (- 4, w)))"

subsection \<open>\<^verbatim>\<open>updi_write\<close>\<close>

definition UPDI_WRITE_STROKEN_LEN :: int where
  "UPDI_WRITE_STROKEN_LEN = 16"

text \<open>
  The token loop of \<^verbatim>\<open>updi_write\<close>, with its locals \<^verbatim>\<open>i\<close>, \<^verbatim>\<open>address\<close>, \<^verbatim>\<open>j\<close>,
  \<^verbatim>\<open>buf\<close>, \<^verbatim>\<open>dirty\<close> and \<^verbatim>\<open>result\<close>. For \<^verbatim>\<open>i \<ge> 1\<close> the operand of \<^verbatim>\<open>%\<close> is not
  negative, where C's remainder and \<open>mod\<close> agree.
\<close>

fun write_loop ::
  "'s env \<Rightarrow> string list \<Rightarrow> int \<Rightarrow> int \<Rightarrow> int \<Rightarrow> u8 list \<Rightarrow> bool \<Rightarrow> int \<Rightarrow> 's world
     \<Rightarrow> (int \<times> int \<times> int \<times> u8 list \<times> bool \<times> int) \<times> 's world" where
  "write_loop env [] i address j buf dirty result w = ((i, address, j, buf, dirty, result), w)"
| "write_loop env (t # ts) i address j buf dirty result w =
     (if i = 0 then write_loop env ts (i + 1) (to_int (strtol t 16)) j buf dirty result w
      else if result = 0 then
        (let j = (i - 1) mod UPDI_WRITE_STROKEN_LEN;
             buf = buf[nat j := word_of_int (strtol t 16)]
         in if j + 1 = UPDI_WRITE_STROKEN_LEN then
              (case call (Write_mem (address + i - j - 1) (take (nat (j + 1)) buf))
                         (nvm_write_mem env (address + i - j - 1) (take (nat (j + 1)) buf)) w
               of (result, w1) \<Rightarrow>
                 write_loop env ts (i + 1) address j buf False (if result \<noteq> 0 then - 3 else result) w1)
            else write_loop env ts (i + 1) address j buf True result w)
      else write_loop env ts (i + 1) address j buf dirty result w)"

text \<open>The readback loop \<^verbatim>\<open>for (j = 0; j < i - 1; j += UPDI_WRITE_STROKEN_LEN)\<close>.\<close>

function readback :: "'s env \<Rightarrow> int \<Rightarrow> int \<Rightarrow> int \<Rightarrow> 's world \<Rightarrow> int \<times> 's world" where
  "readback env address i j w =
     (if j < i - 1 then
        (let ln = i - j - 1;
             ln = (if ln > UPDI_WRITE_STROKEN_LEN then UPDI_WRITE_STROKEN_LEN else ln)
         in case call (Read_mem (address + j) ln) (nvm_read_mem env (address + j) ln) w
            of ((result, rd), w1) \<Rightarrow>
              if result \<noteq> 0 then (- 5, w1)
              else readback env address i (j + UPDI_WRITE_STROKEN_LEN) w1)
      else (0, w))"
  by pat_completeness auto
termination
  by (relation "measure (\<lambda>(env, address, i, j, w). nat (i - 1 - j))")
     (auto simp: UPDI_WRITE_STROKEN_LEN_def)

text \<open>The block "write the left data" behind the token loop.\<close>

definition write_left ::
  "'s env \<Rightarrow> int \<Rightarrow> int \<Rightarrow> int \<Rightarrow> u8 list \<Rightarrow> bool \<Rightarrow> int \<Rightarrow> 's world \<Rightarrow> int \<times> 's world" where
  "write_left env i address j buf dirty result w =
    (if dirty \<and> result = 0 then
       (case call (Write_mem (address + i - j - 2) (take (nat (j + 1)) buf))
                  (nvm_write_mem env (address + i - j - 2) (take (nat (j + 1)) buf)) w
        of (result, w1) \<Rightarrow> (if result \<noteq> 0 then - 4 else result, w1))
     else (result, w))"

text \<open>
  \<^verbatim>\<open>buf\<close>, \<^verbatim>\<open>address\<close> and \<^verbatim>\<open>j\<close> are uninitialised in C; the model starts them at 0.
  A cell of \<^verbatim>\<open>buf\<close> is passed to the driver only after the loop has stored a byte
  in it.
\<close>

definition updi_write :: "'s env \<Rightarrow> string \<Rightarrow> 's world \<Rightarrow> int \<times> 's world" where
  "updi_write env cmd w =
    (case str_split env cmd CHR '';'' of
       None \<Rightarrow> (- 2, w)
     | Some tokens \<Rightarrow>
         (case write_loop env tokens 0 0 0 (replicate (nat UPDI_WRITE_STROKEN_LEN) 0) False 0 w
          of ((i, address, j, buf, dirty, result), w1) \<Rightarrow>
            (case write_left env i address j buf dirty result w1 of (result, w3) \<Rightarrow>
               if result = 0 then readback env address i 0 w3 else (result, w3))))"

subsection \<open>The chunked write, in the words of the specification\<close>

text \<open>
  The specification describes \<^verbatim>\<open>updi_write\<close> by windows: the bytes are cut into
  consecutive windows of 16, the last one holding the remainder; each window is
  one driver write at the address plus the offset of the window; the first
  failing write ends the command; after the last write each window is read
  back with its own length, and the first failing read ends the command.
  These definitions follow that description, to be compared with the loop of
  the code. The error codes are the code's: \<open>-3\<close> for a full window, \<open>-4\<close> for the
  remainder, \<open>-5\<close> for a read.
\<close>

function windows :: "'a list \<Rightarrow> 'a list list" where
  "windows bs = (if bs = [] then [] else take 16 bs # windows (drop 16 bs))"
  by pat_completeness auto
termination
  by (relation "measure length") auto

fun flush_windows :: "'s env \<Rightarrow> int \<Rightarrow> u8 list list \<Rightarrow> 's world \<Rightarrow> int \<times> 's world" where
  "flush_windows env a [] w = (0, w)"
| "flush_windows env a (c # cs) w =
     (case call (Write_mem a c) (nvm_write_mem env a c) w of (result, w1) \<Rightarrow>
      if result \<noteq> 0 then (if length c = 16 then - 3 else - 4, w1)
      else flush_windows env (a + 16) cs w1)"

fun read_windows :: "'s env \<Rightarrow> int \<Rightarrow> u8 list list \<Rightarrow> 's world \<Rightarrow> int \<times> 's world" where
  "read_windows env a [] w = (0, w)"
| "read_windows env a (c # cs) w =
     (case call (Read_mem a (int (length c))) (nvm_read_mem env a (int (length c))) w
      of ((result, rd), w1) \<Rightarrow>
        if result \<noteq> 0 then (- 5, w1) else read_windows env (a + 16) cs w1)"

definition write_spec :: "'s env \<Rightarrow> int \<Rightarrow> u8 list \<Rightarrow> 's world \<Rightarrow> int \<times> 's world" where
  "write_spec env address bs w =
    (case flush_windows env address (windows bs) w of (result, w1) \<Rightarrow>
     if result \<noteq> 0 then (result, w1) else read_windows env address (windows bs) w1)"

subsection \<open>\<^verbatim>\<open>main\<close>, after argument parsing\<close>

text \<open>
  The variables the option table of \<^verbatim>\<open>main\<close> fills; a \<^verbatim>\<open>NULL\<close> string is \<open>None\<close>.
  \<^verbatim>\<open>file\<close>, \<^verbatim>\<open>read\<close> and \<^verbatim>\<open>write\<close> are written \<open>file_name\<close>, \<open>read_cmd\<close> and \<open>write_cmd\<close>.
\<close>

record options =
  dev_name :: "string option"
  comport :: "string option"
  baudrate :: int
  file_name :: "string option"
  fuses :: "string option"
  read_cmd :: "string option"
  write_cmd :: "string option"
  flag :: int

definition FLAG_UNLOCK :: nat where "FLAG_UNLOCK = 0"
definition FLAG_ERASE :: nat where "FLAG_ERASE = 1"
definition FLAG_PROG :: nat where "FLAG_PROG = 2"
definition FLAG_CHECK :: nat where "FLAG_CHECK = 3"
definition FLAG_SAVE :: nat where "FLAG_SAVE = 4"

text \<open>
  Modelled from the spec: the macros \<^verbatim>\<open>SET_BIT\<close> and \<^verbatim>\<open>TEST_BIT\<close> are declared in a
  header that is not among the sources. The spec calls the actions "combinable
  bits", and the option table of \<^verbatim>\<open>main\<close> gives action \<open>X\<close> the mask
  \<^verbatim>\<open>(1 << FLAG_X)\<close>: the macros set and test that bit.
\<close>

definition SET_BIT :: "int \<Rightarrow> nat \<Rightarrow> int" where
  "SET_BIT v n = v OR push_bit n 1"

definition TEST_BIT :: "int \<Rightarrow> nat \<Rightarrow> bool" where
  "TEST_BIT v n = (v AND push_bit n 1 \<noteq> 0)"

text \<open>
  \<^verbatim>\<open>if (result) { result = code; goto out; }\<close> after a step, and the sequencing of
  two steps: the second runs when the first left \<^verbatim>\<open>result\<close> at 0.
\<close>

definition fail_with :: "int \<Rightarrow> int \<times> 's world \<Rightarrow> int \<times> 's world" where
  "fail_with code rw = (case rw of (result, w) \<Rightarrow> (if result \<noteq> 0 then code else 0, w))"

definition and_then ::
  "int \<times> 's world \<Rightarrow> ('s world \<Rightarrow> int \<times> 's world) \<Rightarrow> int \<times> 's world" where
  "and_then rw f = (case rw of (result, w) \<Rightarrow> if result \<noteq> 0 then (result, w) else f w)"

text \<open>Lines 157 to 162: the device info query.\<close>

definition main_info :: "'s env \<Rightarrow> 's world \<Rightarrow> int \<times> 's world" where
  "main_info env w = fail_with (- 4) (call Get_device_info (nvm_get_device_info env) w)"

text \<open>Lines 165 to 183: program mode.\<close>

definition main_progmode :: "'s env \<Rightarrow> bool \<Rightarrow> 's world \<Rightarrow> int \<times> 's world" where
  "main_progmode env unlock w =
    (if unlock then
       and_then
         (case call Enter_progmode (nvm_enter_progmode env) w of (result, w1) \<Rightarrow>
          if result \<noteq> 0 then fail_with (- 5) (call Unlock_device (nvm_unlock_device env) w1)
          else (0, w1))
         (\<lambda>w2. fail_with (- 6) (call Get_device_info (nvm_get_device_info env) w2))
     else (0, w))"

text \<open>Lines 185 to 239: erase, fuses, file, read, write.\<close>

definition main_erase :: "'s env \<Rightarrow> int \<Rightarrow> 's world \<Rightarrow> int \<times> 's world" where
  "main_erase env flg w =
    (if TEST_BIT flg FLAG_ERASE then fail_with (- 7) (updi_erase env w) else (0, w))"

definition main_fuses :: "'s env \<Rightarrow> options \<Rightarrow> 's world \<Rightarrow> int \<times> 's world" where
  "main_fuses env opts w =
    (case fuses opts of None \<Rightarrow> (0, w) | Some f \<Rightarrow> fail_with (- 8) (updi_fuse env f w))"

definition main_file :: "'s env \<Rightarrow> options \<Rightarrow> int \<Rightarrow> 's world \<Rightarrow> int \<times> 's world" where
  "main_file env opts flg w =
    (case file_name opts of
       None \<Rightarrow> (0, w)
     | Some f \<Rightarrow>
         and_then
           (if TEST_BIT flg FLAG_PROG \<or> TEST_BIT flg FLAG_CHECK
            then fail_with (- 9) (updi_flash env f (TEST_BIT flg FLAG_PROG) w) else (0, w))
           (\<lambda>w1. if TEST_BIT flg FLAG_SAVE then fail_with (- 10) (updi_save env f w1)
                 else (0, w1)))"

definition main_read :: "'s env \<Rightarrow> options \<Rightarrow> 's world \<Rightarrow> int \<times> 's world" where
  "main_read env opts w =
    (case read_cmd opts of None \<Rightarrow> (0, w) | Some c \<Rightarrow> fail_with (- 11) (updi_read env c w))"

definition main_write :: "'s env \<Rightarrow> options \<Rightarrow> 's world \<Rightarrow> int \<times> 's world" where
  "main_write env opts w =
    (case write_cmd opts of None \<Rightarrow> (0, w) | Some c \<Rightarrow> fail_with (- 12) (updi_write env c w))"

text \<open>Lines 136 to 142: the default action and the \<^verbatim>\<open>unlock\<close> variable.\<close>

definition main_flag :: "options \<Rightarrow> int" where
  "main_flag opts =
    (if file_name opts \<noteq> None \<and> flag opts = 0 then SET_BIT (flag opts) FLAG_PROG else flag opts)"

definition main_unlock :: "int \<Rightarrow> bool" where
  "main_unlock flg = (TEST_BIT flg FLAG_UNLOCK \<or> TEST_BIT flg FLAG_ERASE \<or> TEST_BIT flg FLAG_PROG)"

text \<open>
  \<^verbatim>\<open>main\<close> from line 123 on. The label \<^verbatim>\<open>out\<close> leaves program mode and releases the
  session, also with the \<^verbatim>\<open>NULL\<close> handle of a failed \<^verbatim>\<open>updi_nvm_init\<close>.
\<close>

definition main :: "'s env \<Rightarrow> options \<Rightarrow> 's world \<Rightarrow> int \<times> 's world" where
  "main env opts w =
    (case dev_name opts of
       None \<Rightarrow> (ERROR_PTR env, w)
     | Some dname \<Rightarrow>
     case comport opts of
       None \<Rightarrow> (ERROR_PTR env, w)
     | Some port \<Rightarrow>
       let flg = main_flag opts;
           unlock = main_unlock flg
       in
       if \<not> get_chip_info env dname then (- 2, w)
       else
         case call Nvm_init (updi_nvm_init env port (baudrate opts)) w of (ok, w1) \<Rightarrow>
         case
           (if \<not> ok then (- 3, w1)
            else
              and_then (main_info env w1) (\<lambda>w.
              and_then (main_progmode env unlock w) (\<lambda>w.
              and_then (main_erase env flg w) (\<lambda>w.
              and_then (main_fuses env opts w) (\<lambda>w.
              and_then (main_file env opts flg w) (\<lambda>w.
              and_then (main_read env opts w) (\<lambda>w.
              main_write env opts w)))))))
         of (result, w2) \<Rightarrow>
         case call Leave_progmode (nvm_leave_progmode env) w2 of (_, w3) \<Rightarrow>
         case call Nvm_deinit (updi_nvm_deinit env) w3 of (_, w4) \<Rightarrow>
         (result, w4))"

subsection \<open>A simulated environment\<close>

text \<open>
  Modelled from the spec: \<^verbatim>\<open>str_split\<close> (\<^verbatim>\<open>string/split.h\<close>) is not among the sources.
  The spec speaks of colon-delimited and semicolon-delimited tokens: the string
  is cut at every delimiter.
\<close>

fun tokens_of :: "char \<Rightarrow> string \<Rightarrow> string list" where
  "tokens_of d [] = [[]]"
| "tokens_of d (c # cs) =
     (case tokens_of d cs of
        [] \<Rightarrow> [[c]]
      | t # ts \<Rightarrow> if c = d then [] # t # ts else (c # t) # ts)"

text \<open>
  An environment in which every call succeeds, used to run the model on
  concrete inputs: a blank device (every byte reads \<open>0xFF\<close>) with the given
  flash geometry, a hex reader that reports records spanning \<open>[a, b]\<close> and
  leaves the buffer as it is, and an allocator that serves requests below
  \<open>2^31\<close> bytes. The device of the examples has its flash at \<open>0x8000\<close>, 8192 bytes
  in pages of 64.
\<close>

definition sim_env :: "flash_info_t \<Rightarrow> u32 \<Rightarrow> u32 \<Rightarrow> unit env" where
  "sim_env fl a b =
    \<lparr>str_split = (\<lambda>s d. Some (tokens_of d s)),
     sizeof_hex_data = 40,
     ERROR_PTR = - 1,
     malloc = (\<lambda>n s. (n < 2 ^ 31, s)),
     get_hex_info = (\<lambda>f h s. ((0, h\<lparr>addr_from := a, addr_to := b\<rparr>), s)),
     save_hex_info = (\<lambda>f h s. (0, s)),
     get_chip_info = (\<lambda>d. True),
     updi_nvm_init = (\<lambda>p b s. (True, s)),
     updi_nvm_deinit = (\<lambda>s. ((), s)),
     nvm_get_device_info = (\<lambda>s. (0, s)),
     nvm_enter_progmode = (\<lambda>s. (0, s)),
     nvm_leave_progmode = (\<lambda>s. (0, s)),
     nvm_unlock_device = (\<lambda>s. (0, s)),
     nvm_chip_erase = (\<lambda>s. (0, s)),
     nvm_write_fuse = (\<lambda>i v s. (0, s)),
     nvm_get_flash_info = (\<lambda>s. ((0, fl), s)),
     nvm_read_flash = (\<lambda>a n s. ((0, \<lambda>i. 0xff), s)),
     nvm_write_flash = (\<lambda>a d s. (0, s)),
     nvm_read_mem = (\<lambda>a n s. ((0, \<lambda>i. 0xff), s)),
     nvm_write_mem = (\<lambda>a d s. (0, s))\<rparr>"

definition tiny_flash :: flash_info_t where
  "tiny_flash = \<lparr>flash_start = 0x8000, flash_size = 0x2000, flash_pagesize = 0x40\<rparr>"

definition world0 :: "unit world" where
  "world0 = \<lparr>dev = (), trace = []\<rparr>"

text \<open>
  The image \<^verbatim>\<open>load_hex\<close> returns on that device for a hex file spanning \<open>[0, 0x3f]\<close>,
  one blank page at the start of the flash; and an environment whose allocator
  refuses every request.
\<close>

definition one_page :: hex_data_t where
  "one_page = \<lparr>data = replicate 64 0xff, len = 64, offset = 0, total_size = 0,
                actual_size = 0, addr_from = 0x8000, addr_to = 0x803f\<rparr>"

definition no_memory :: "'s env \<Rightarrow> 's env" where
  "no_memory env = env\<lparr>malloc := (\<lambda>n s. (False, s))\<rparr>"

text \<open>
  The byte \<^verbatim>\<open>updi_write\<close> stores for a token, and a command of an address and 17
  byte tokens; an environment whose driver refuses the write at one address.
\<close>

abbreviation byte_of :: "string \<Rightarrow> u8" where
  "byte_of t \<equiv> word_of_int (strtol t 16)"

definition cmd17 :: string where
  "cmd17 = ''2000;00;01;02;03;04;05;06;07;08;09;0a;0b;0c;0d;0e;0f;10''"

definition toks17 :: "string list" where
  "toks17 = [''00'', ''01'', ''02'', ''03'', ''04'', ''05'', ''06'', ''07'', ''08'', ''09'',
             ''0a'', ''0b'', ''0c'', ''0d'', ''0e'', ''0f'', ''10'']"

definition write_fails_at :: "int \<Rightarrow> unit env \<Rightarrow> unit env" where
  "write_fails_at x env = env\<lparr>nvm_write_mem := (\<lambda>a d s. (if a = x then 1 else 0, s))\<rparr>"

subsection \<open>Traces\<close>

text \<open>
  The calls that change the device, and the worlds that differ from a given one
  by calls that leave the device unchanged.
\<close>

fun device_mutation :: "event \<Rightarrow> bool" where
  "device_mutation Unlock_device = True"
| "device_mutation Chip_erase = True"
| "device_mutation (Write_fuse i v) = True"
| "device_mutation (Write_flash a d) = True"
| "device_mutation (Write_mem a d) = True"
| "device_mutation e = False"

definition quiet :: "'s world \<Rightarrow> 's world \<Rightarrow> bool" where
  "quiet w w' = (\<exists>evs. trace w' = trace w @ evs \<and> (\<forall>e \<in> set evs. \<not> device_mutation e))"

text \<open>
  For the sequencing of \<^verbatim>\<open>main\<close>: the two calls of program-mode entry, the worlds that
  differ from a given one by other calls only, and the event lists in which
  entry and its recovery occur at most once, entry only if requested and the
  recovery only behind an entry.
\<close>

fun progmode_event :: "event \<Rightarrow> bool" where
  "progmode_event Enter_progmode = True"
| "progmode_event Unlock_device = True"
| "progmode_event e = False"

definition steady :: "'s world \<Rightarrow> 's world \<Rightarrow> bool" where
  "steady w w' = (\<exists>evs. trace w' = trace w @ evs \<and> (\<forall>e \<in> set evs. \<not> progmode_event e))"

definition progmode_once :: "bool \<Rightarrow> event list \<Rightarrow> bool" where
  "progmode_once u evs =
     (count_list evs Enter_progmode \<le> 1 \<and> count_list evs Unlock_device \<le> 1
      \<and> (Enter_progmode \<in> set evs \<longrightarrow> u)
      \<and> (Unlock_device \<in> set evs \<longrightarrow> Enter_progmode \<in> set evs))"

definition once :: "bool \<Rightarrow> 's world \<Rightarrow> 's world \<Rightarrow> bool" where
  "once u w w' = (\<exists>evs. trace w' = trace w @ evs \<and> progmode_once u evs)"

subsection \<open>More simulated runs\<close>

text \<open>
  A device that refuses program mode and cannot be unlocked, and the options
  of an erase request.
\<close>

definition locked :: "'s env \<Rightarrow> 's env" where
  "locked env = env\<lparr>nvm_enter_progmode := (\<lambda>s. (1, s)), nvm_unlock_device := (\<lambda>s. (1, s))\<rparr>"

definition erase_opts :: options where
  "erase_opts = \<lparr>dev_name = Some ''tiny817'', comport = Some ''COM2'', baudrate = 115200,
                 file_name = None, fuses = None, read_cmd = None, write_cmd = None, flag = 2\<rparr>"

text \<open>The options of a run that names a hex file and no action.\<close>

definition file_opts :: options where
  "file_opts = \<lparr>dev_name = Some ''tiny817'', comport = Some ''COM2'', baudrate = 115200,
                file_name = Some ''fw.hex'', fuses = None, read_cmd = None, write_cmd = None,
                flag = 0\<rparr>"

section \<open>Properties\<close>

subsection \<open>Auxiliary facts\<close>

lemma unat_sum_le: "unat (a :: u32) + unat b \<le> unat c \<Longrightarrow> a + b \<le> c"
proof -
  assume h: "unat a + unat b \<le> unat c"
  have "unat (a + b) \<le> unat a + unat b"
    by (simp add: unat_word_ariths)
  with h show ?thesis
    by (simp add: word_le_nat_alt)
qed

subsection \<open>The hex image loader\<close>

text \<open>
  C1. The claim: for a power-of-two page size and a record span \<open>[a, b]\<close> inside the
  flash, \<^verbatim>\<open>load_hex\<close> yields \<open>addr_to = ((b + pagesize) & ~(pagesize-1)) - 1\<close>, so that
  \<open>addr_to + 1 \<ge> b + 1\<close>. The code rounds with \<^verbatim>\<open>(hinfo.addr_to + mask) & ~mask\<close>
  instead, which is one page short whenever \<open>b\<close> is a multiple of the page size.
  On a device with flash at \<open>0x8000\<close>, 8192 bytes, pages of 64 bytes:
  \<^item> for a hex file whose records span \<open>[0, 64]\<close>, the image \<^verbatim>\<open>load_hex\<close> returns is
    the single page \<open>[0x8000, 0x803f]\<close> of 64 bytes: the byte of hex address 64
    (device address \<open>0x8040\<close>) lies behind its end, where the claim's formula gives
    the end \<open>0x807f\<close>;
  \<^item> for a hex file of the single byte at address 0, the span \<open>[0, 0]\<close>, the image
    is empty: \<open>len = 0\<close> and \<open>addr_to = addr_from - 1\<close>.
\<close>

theorem load_hex_page_aligned_end:
  "fst (load_hex (sim_env tiny_flash 0 64) ''fw.hex'' tiny_flash world0) =
     Inr \<lparr>data = replicate 64 0xff, len = 64, offset = 0, total_size = 0, actual_size = 0,
          addr_from = 0x8000, addr_to = 0x803f\<rparr>
   \<and> ((64 + flash_pagesize tiny_flash) AND NOT (flash_pagesize tiny_flash - 1)) - 1
        + flash_start tiny_flash = 0x807f
   \<and> \<not> (0x803f + 1 \<ge> flash_start tiny_flash + 64 + 1)
   \<and> fst (load_hex (sim_env tiny_flash 0 0) ''fw.hex'' tiny_flash world0) =
     Inr \<lparr>data = [], len = 0, offset = 0, total_size = 0, actual_size = 0,
          addr_from = 0x8000, addr_to = 0x7fff\<rparr>"
  by (simp add: load_hex_def sim_env_def tiny_flash_def world0_def call_def hex_zero_def)

text \<open>
  C5. Let \<open>from\<close> and \<open>to\<close> be the aligned bounds \<^verbatim>\<open>load_hex\<close> computes from the
  span the hex reader reports, and \<open>from'\<close>, \<open>to'\<close> the bounds after \<open>flash_start\<close>
  has been added to both when \<open>from < flash_start\<close>. Whenever
  \<open>to' \<ge> flash_start + flash_size\<close> (the 32-bit sum the code compares with, or the
  sum of the two numbers), \<^verbatim>\<open>load_hex\<close> returns the address-over-flash error, and
  the only call it has made is the first \<^verbatim>\<open>get_hex_info\<close>: no buffer is allocated and
  no device function is called. Whenever it returns an image, the image carries
  the translated bounds, and \<open>to'\<close> is below \<open>flash_start + flash_size\<close>.
\<close>

theorem load_hex_addr_over_flash:
  assumes info: "get_hex_info env file hex_zero (dev w) = ((0, hinfo), s1)"
    and msk: "msk = flash_pagesize iflash - 1"
    and "from": "from = addr_from hinfo AND NOT msk"
    and to: "to = ((addr_to hinfo + msk) AND NOT msk) - 1"
    and from': "from' = (if from < flash_start iflash then from + flash_start iflash else from)"
    and to': "to' = (if from < flash_start iflash then to + flash_start iflash else to)"
  shows "(flash_start iflash + flash_size iflash \<le> to'
            \<or> unat (flash_start iflash) + unat (flash_size iflash) \<le> unat to'
          \<longrightarrow> load_hex env file iflash w =
                (Inl Addr_over_flash, \<lparr>dev = s1, trace = trace w @ [Get_hex_info file]\<rparr>))
       \<and> (\<forall>h w'. load_hex env file iflash w = (Inr h, w')
             \<longrightarrow> addr_from h = from' \<and> addr_to h = to'
                 \<and> to' < flash_start iflash + flash_size iflash)"
proof (intro conjI impI allI)
  assume "flash_start iflash + flash_size iflash \<le> to'
            \<or> unat (flash_start iflash) + unat (flash_size iflash) \<le> unat to'"
  then have over: "flash_start iflash + flash_size iflash \<le> to'"
    using unat_sum_le by blast
  show "load_hex env file iflash w =
          (Inl Addr_over_flash, \<lparr>dev = s1, trace = trace w @ [Get_hex_info file]\<rparr>)"
    using over info unfolding msk "from" to to'
    by (simp add: load_hex_def call_def Let_def)
next
  fix h w' assume ok: "load_hex env file iflash w = (Inr h, w')"
  show "addr_from h = from'"
    using ok info unfolding msk "from" to to' from'
    by (auto simp: load_hex_def call_def Let_def split: if_splits prod.splits)
  show "addr_to h = to'"
    using ok info unfolding msk "from" to to' from'
    by (auto simp: load_hex_def call_def Let_def split: if_splits prod.splits)
  show "to' < flash_start iflash + flash_size iflash"
    using ok info unfolding msk "from" to to' from'
    by (auto simp: load_hex_def call_def Let_def split: if_splits prod.splits)
qed

text \<open>
  The theorem at two hex files for the device above: records spanning
  \<open>[0, 0x2001]\<close> end behind the flash and are rejected after one call; records
  spanning \<open>[0x10, 0x7f]\<close> load as the two pages \<open>[0x8000, 0x807f]\<close>.
\<close>

theorem load_hex_addr_over_flash_witness:
  "load_hex (sim_env tiny_flash 0 0x2001) ''fw.hex'' tiny_flash world0 =
     (Inl Addr_over_flash, \<lparr>dev = (), trace = [Get_hex_info ''fw.hex'']\<rparr>)
   \<and> (\<exists>h w'. load_hex (sim_env tiny_flash 0x10 0x7f) ''fw.hex'' tiny_flash world0 = (Inr h, w')
         \<and> addr_from h = 0x8000 \<and> addr_to h = 0x807f)"
proof
  have "get_hex_info (sim_env tiny_flash 0 0x2001) ''fw.hex'' hex_zero (dev world0) =
          ((0, hex_zero\<lparr>addr_from := 0, addr_to := 0x2001\<rparr>), ())"
    by (simp add: sim_env_def)
  from load_hex_addr_over_flash [OF this refl refl refl refl refl, of tiny_flash]
  show "load_hex (sim_env tiny_flash 0 0x2001) ''fw.hex'' tiny_flash world0 =
          (Inl Addr_over_flash, \<lparr>dev = (), trace = [Get_hex_info ''fw.hex'']\<rparr>)"
    by (simp add: tiny_flash_def hex_zero_def world0_def)
next
  have info: "get_hex_info (sim_env tiny_flash 0x10 0x7f) ''fw.hex'' hex_zero (dev world0) =
          ((0, hex_zero\<lparr>addr_from := 0x10, addr_to := 0x7f\<rparr>), ())"
    by (simp add: sim_env_def)
  obtain h w' where
    ok: "load_hex (sim_env tiny_flash 0x10 0x7f) ''fw.hex'' tiny_flash world0 = (Inr h, w')"
    by (simp add: load_hex_def sim_env_def tiny_flash_def world0_def call_def hex_zero_def)
  from load_hex_addr_over_flash [OF info refl refl refl refl refl, of tiny_flash] ok
  have "addr_from h = 0x8000 \<and> addr_to h = 0x807f"
    by (simp add: tiny_flash_def hex_zero_def)
  with ok show "\<exists>h w'. load_hex (sim_env tiny_flash 0x10 0x7f) ''fw.hex'' tiny_flash world0 = (Inr h, w')
         \<and> addr_from h = 0x8000 \<and> addr_to h = 0x807f"
    by blast
qed

subsection \<open>The verifier\<close>

declare verify_loop.simps [simp del]

lemma verify_loop_stops:
  "i \<le> k \<Longrightarrow> k < n \<Longrightarrow> d ! k \<noteq> r ! k \<Longrightarrow> (\<forall>j. i \<le> j \<and> j < k \<longrightarrow> d ! j = r ! j)
     \<Longrightarrow> verify_loop d r i n = k"
proof (induction d r i n rule: verify_loop.induct)
  case (1 d r i n)
  show ?case
  proof (cases "i = k")
    case True
    with "1.prems" show ?thesis by (simp add: verify_loop.simps)
  next
    case False
    with "1.prems" have eq: "d ! i = r ! i" and lt: "i < n" and le: "Suc i \<le> k" by auto
    from "1.prems" have "\<forall>j. Suc i \<le> j \<and> j < k \<longrightarrow> d ! j = r ! j" by auto
    with "1.IH" [OF lt _ le] eq "1.prems" have "verify_loop d r (Suc i) n = k" by simp
    with eq lt show ?thesis by (subst verify_loop.simps) simp
  qed
qed

lemma verify_loop_runs:
  "i \<le> n \<Longrightarrow> (\<forall>j. i \<le> j \<and> j < n \<longrightarrow> d ! j = r ! j) \<Longrightarrow> verify_loop d r i n = n"
proof (induction d r i n rule: verify_loop.induct)
  case (1 d r i n)
  show ?case
  proof (cases "i < n")
    case True
    with "1.prems" have eq: "d ! i = r ! i" by simp
    from "1.IH" [OF True] eq True "1.prems" have "verify_loop d r (Suc i) n = n" by simp
    with eq True show ?thesis by (subst verify_loop.simps) simp
  next
    case False
    with "1.prems" show ?thesis by (subst verify_loop.simps) simp
  qed
qed

lemma first_mismatch_exists:
  "\<not> (\<forall>i<n::nat. P i) \<Longrightarrow> \<exists>k<n. \<not> P k \<and> (\<forall>i<k. P i)"
proof -
  assume "\<not> (\<forall>i<n. P i)"
  then obtain m where m: "m < n \<and> \<not> P m" by blast
  define k where "k = (LEAST m. m < n \<and> \<not> P m)"
  from m have k: "k < n \<and> \<not> P k" unfolding k_def by (rule LeastI [of "\<lambda>m. m < n \<and> \<not> P m"])
  have "\<forall>i<k. P i"
  proof (intro allI impI)
    fix i assume "i < k"
    then have "\<not> (i < n \<and> \<not> P i)" unfolding k_def by (rule not_less_Least [of _ "\<lambda>m. m < n \<and> \<not> P m"])
    moreover from \<open>i < k\<close> k have "i < n" by simp
    ultimately show "P i" by simp
  qed
  with k show ?thesis by blast
qed

text \<open>
  C4, as the code has it. The claim leaves out the allocation of the read buffer:
  when \<^verbatim>\<open>malloc\<close> fails, \<^verbatim>\<open>verify_hex\<close> returns \<open>-2\<close> and reads nothing (the
  counterexample below). With the buffer obtained, the claim holds. Let
  \<open>n = dhex->len\<close>, and let the image hold \<open>n\<close> bytes.
  \<^item> \<^verbatim>\<open>verify_hex\<close> asks the driver for exactly \<open>n\<close> bytes at \<open>dhex->addr_from\<close>, once.
  \<^item> A driver failure returns \<open>-3\<close>.
  \<^item> If the bytes read equal the image bytes at every offset below \<open>n\<close>, it returns 0.
  \<^item> Otherwise it returns \<open>-4\<close>, and the diagnostic names the smallest offset
    \<open>k\<close> at which they differ, with both bytes.
  \<^item> It returns 0 exactly when the buffer was obtained, the read succeeded and
    all \<open>n\<close> bytes are equal.
  \<^item> In each of the three outcomes that follow the allocation the buffer is freed,
    as the last event.
\<close>

theorem verify_hex_outcomes:
  assumes n: "n = unat (len dhex)"
    and wf: "length (data dhex) = n"
    and alloc: "malloc env n (dev w) = (ok, s1)"
    and rd: "nvm_read_flash env (addr_from dhex) n s1 = ((result, rd), s2)"
    and rdev: "rdev = Read_flash (addr_from dhex) n"
  shows "(\<not> ok \<longrightarrow> verify_hex env dhex w = (- 2, \<lparr>dev = s1, trace = trace w @ [Malloc Rdata n]\<rparr>))
    \<and> (ok \<and> result \<noteq> 0 \<longrightarrow> verify_hex env dhex w =
          (- 3, \<lparr>dev = s2, trace = trace w @ [Malloc Rdata n, rdev, Free Rdata]\<rparr>))
    \<and> (ok \<and> result = 0 \<and> (\<forall>i<n. data dhex ! i = rd i) \<longrightarrow> verify_hex env dhex w =
          (0, \<lparr>dev = s2, trace = trace w @ [Malloc Rdata n, rdev, Free Rdata]\<rparr>))
    \<and> (\<forall>k. ok \<and> result = 0 \<and> k < n \<and> data dhex ! k \<noteq> rd k \<and> (\<forall>i<k. data dhex ! i = rd i)
          \<longrightarrow> verify_hex env dhex w =
          (- 4, \<lparr>dev = s2, trace = trace w @ [Malloc Rdata n, rdev,
                   Mismatch k (data dhex ! k) (rd k), Free Rdata]\<rparr>))
    \<and> (fst (verify_hex env dhex w) = 0 \<longleftrightarrow> ok \<and> result = 0 \<and> (\<forall>i<n. data dhex ! i = rd i))"
proof -
  have c1: "\<not> ok \<Longrightarrow> verify_hex env dhex w = (- 2, \<lparr>dev = s1, trace = trace w @ [Malloc Rdata n]\<rparr>)"
    using alloc n by (simp add: verify_hex_def call_def Let_def)
  have c2: "ok \<Longrightarrow> result \<noteq> 0 \<Longrightarrow> verify_hex env dhex w =
          (- 3, \<lparr>dev = s2, trace = trace w @ [Malloc Rdata n, rdev, Free Rdata]\<rparr>)"
    using alloc rd n rdev by (simp add: verify_hex_def call_def record_ev_def Let_def)
  have c3: "verify_hex env dhex w =
          (0, \<lparr>dev = s2, trace = trace w @ [Malloc Rdata n, rdev, Free Rdata]\<rparr>)"
    if "ok" "result = 0" and eq: "\<forall>i<n. data dhex ! i = rd i"
  proof -
    from eq have "verify_loop (data dhex) (map rd [0..<n]) 0 n = n"
      by (intro verify_loop_runs) auto
    with that alloc rd n rdev show ?thesis
      by (simp add: verify_hex_def call_def record_ev_def Let_def)
  qed
  have c4: "verify_hex env dhex w =
          (- 4, \<lparr>dev = s2, trace = trace w @ [Malloc Rdata n, rdev,
                   Mismatch k (data dhex ! k) (rd k), Free Rdata]\<rparr>)"
    if "ok" "result = 0" and k: "k < n" "data dhex ! k \<noteq> rd k" "\<forall>i<k. data dhex ! i = rd i" for k
  proof -
    from k have "verify_loop (data dhex) (map rd [0..<n]) 0 n = k"
      by (intro verify_loop_stops) auto
    with that alloc rd n rdev show ?thesis
      by (simp add: verify_hex_def call_def record_ev_def Let_def)
  qed
  have c5: "fst (verify_hex env dhex w) = 0 \<longleftrightarrow> ok \<and> result = 0 \<and> (\<forall>i<n. data dhex ! i = rd i)"
  proof (cases "ok \<and> result = 0")
    case False
    show ?thesis
    proof (cases ok)
      case True
      with False c2 show ?thesis by simp
    next
      case False
      with c1 show ?thesis by simp
    qed
  next
    case True
    show ?thesis
    proof (cases "\<forall>i<n. data dhex ! i = rd i")
      case True
      with c3 \<open>ok \<and> result = 0\<close> show ?thesis by simp
    next
      case False
      then obtain k where "k < n" "data dhex ! k \<noteq> rd k" "\<forall>i<k. data dhex ! i = rd i"
        using first_mismatch_exists [of n "\<lambda>i. data dhex ! i = rd i"] by blast
      with c4 True False show ?thesis by simp
    qed
  qed
  from c1 c2 c3 c4 c5 show ?thesis by blast
qed


text \<open>
  The claim of C4 fails where the buffer cannot be allocated: the device is blank
  (\<^term>\<open>sim_env\<close> reads \<open>0xff\<close> at every address) and the image is a page of \<open>0xff\<close>,
  so the device equals the image at every offset; \<^verbatim>\<open>verify_hex\<close> returns \<open>-2\<close> and
  the driver is never asked to read.
\<close>

theorem verify_hex_no_buffer_counterexample:
  "verify_hex (no_memory (sim_env tiny_flash 0 0x3f)) one_page world0 =
     (- 2, \<lparr>dev = (), trace = [Malloc Rdata 64]\<rparr>)
   \<and> data one_page = replicate 64 0xff"
  by (simp add: verify_hex_def no_memory_def sim_env_def one_page_def world0_def call_def)

text \<open>
  The theorem on the blank device: the blank page verifies; with byte 5 of the
  image changed to \<open>0x12\<close>, offset 5 is reported.
\<close>

theorem verify_hex_outcomes_witness:
  "verify_hex (sim_env tiny_flash 0 0x3f) one_page world0 =
     (0, \<lparr>dev = (), trace = [Malloc Rdata 64, Read_flash 0x8000 64, Free Rdata]\<rparr>)
   \<and> verify_hex (sim_env tiny_flash 0 0x3f) (one_page\<lparr>data := (data one_page)[5 := 0x12]\<rparr>) world0 =
     (- 4, \<lparr>dev = (), trace = [Malloc Rdata 64, Read_flash 0x8000 64, Mismatch 5 0x12 0xff,
                                Free Rdata]\<rparr>)"
proof
  let ?E = "sim_env tiny_flash 0 0x3f"
  have a: "malloc ?E 64 (dev world0) = (True, ())"
    by (simp add: sim_env_def)
  have r: "nvm_read_flash ?E (addr_from one_page) 64 () = ((0, \<lambda>i. 0xff), ())"
    by (simp add: sim_env_def)
  have n: "64 = unat (len one_page)" and l: "length (data one_page) = 64"
    by (simp_all add: one_page_def)
  from verify_hex_outcomes [OF n l a r refl]
  show "verify_hex ?E one_page world0 =
     (0, \<lparr>dev = (), trace = [Malloc Rdata 64, Read_flash 0x8000 64, Free Rdata]\<rparr>)"
    by (simp add: one_page_def world0_def)
next
  let ?E = "sim_env tiny_flash 0 0x3f"
  let ?h = "one_page\<lparr>data := (data one_page)[5 := 0x12]\<rparr>"
  have a: "malloc ?E 64 (dev world0) = (True, ())"
    by (simp add: sim_env_def)
  have r: "nvm_read_flash ?E (addr_from ?h) 64 () = ((0, \<lambda>i. 0xff), ())"
    by (simp add: sim_env_def)
  have n: "64 = unat (len ?h)" and l: "length (data ?h) = 64"
    by (simp_all add: one_page_def)
  have pre: "\<forall>i<5. data ?h ! i = 0xff"
    by (simp add: one_page_def)
  have k: "data ?h ! 5 = 0x12"
    by (simp add: one_page_def)
  note th = verify_hex_outcomes [OF n l a r refl, THEN conjunct2, THEN conjunct2,
                THEN conjunct2, THEN conjunct1, THEN spec, of 5]
  have "verify_hex ?E ?h world0 =
     (- 4, \<lparr>dev = (), trace = trace world0 @ [Malloc Rdata 64, Read_flash (addr_from ?h) 64,
                                Mismatch 5 0x12 0xff, Free Rdata]\<rparr>)"
    using th pre k by simp
  then show "verify_hex ?E ?h world0 =
     (- 4, \<lparr>dev = (), trace = [Malloc Rdata 64, Read_flash 0x8000 64, Mismatch 5 0x12 0xff,
                                Free Rdata]\<rparr>)"
    by (simp add: one_page_def world0_def)
qed

subsection \<open>The direct read command\<close>

lemma read_loop_count: "fst (read_loop ts i address ln) = i + length ts"
  by (induction ts arbitrary: i address ln) (auto simp: Let_def)

text \<open>
  C9, as the code has it. The claim leaves out the allocation of the read buffer:
  with two tokens \<^verbatim>\<open>updi_read\<close> first asks \<^verbatim>\<open>malloc\<close> for the length, converted to
  \<^verbatim>\<open>size_t\<close>, and returns \<open>-3\<close> without a driver read when that fails (as it does for
  a negative length, which asks for nearly \<open>2^64\<close> bytes: the counterexample below).
  Otherwise the claim holds.
  \<^item> A \<^verbatim>\<open>NULL\<close> from \<^verbatim>\<open>str_split\<close> returns \<open>-2\<close>, any token count other than 2 returns
    \<open>-4\<close>; neither makes a call.
  \<^item> With the two tokens \<open>a\<close> and \<open>l\<close>, the address is \<open>a\<close> read in base 16, the
    length is \<open>l\<close> read in base 10 and cut down to 255 when it is larger.
  \<^item> If the buffer is obtained, exactly one driver read of that length at that
    address is issued; its failure returns \<open>-4\<close>, its success 0, and the buffer is freed.
\<close>

theorem updi_read_outcomes:
  "(str_split env cmd CHR '';'' = None \<longrightarrow> updi_read env cmd w = (- 2, w))
   \<and> (\<forall>tokens. str_split env cmd CHR '';'' = Some tokens \<and> length tokens \<noteq> 2
         \<longrightarrow> updi_read env cmd w = (- 4, w))
   \<and> (\<forall>a l address ln ok s1 result rd s2.
         str_split env cmd CHR '';'' = Some [a, l]
         \<and> address = to_int (strtol a 16)
         \<and> ln = min (to_int (strtol l 10)) 255
         \<and> malloc env (to_size_t ln) (dev w) = (ok, s1)
         \<and> nvm_read_mem env address ln s1 = ((result, rd), s2)
         \<longrightarrow> updi_read env cmd w =
               (if \<not> ok then (- 3, \<lparr>dev = s1, trace = trace w @ [Malloc Buf (to_size_t ln)]\<rparr>)
                else (if result \<noteq> 0 then - 4 else 0,
                      \<lparr>dev = s2, trace = trace w @ [Malloc Buf (to_size_t ln),
                                                     Read_mem address ln, Free Buf]\<rparr>)))"
proof (intro conjI allI impI)
  assume "str_split env cmd CHR '';'' = None"
  then show "updi_read env cmd w = (- 2, w)"
    by (simp add: updi_read_def)
next
  fix tokens
  assume h: "str_split env cmd CHR '';'' = Some tokens \<and> length tokens \<noteq> 2"
  obtain i address ln where r: "read_loop tokens 0 0 0 = (i, address, ln)"
    by (cases "read_loop tokens 0 0 0") auto
  with read_loop_count [of tokens 0 0 0] have "i = length tokens" by simp
  with h r show "updi_read env cmd w = (- 4, w)"
    by (simp add: updi_read_def)
next
  fix a l address ln ok s1 result rd s2
  assume h: "str_split env cmd CHR '';'' = Some [a, l]
         \<and> address = to_int (strtol a 16)
         \<and> ln = min (to_int (strtol l 10)) 255
         \<and> malloc env (to_size_t ln) (dev w) = (ok, s1)
         \<and> nvm_read_mem env address ln s1 = ((result, rd), s2)"
  then have sp: "str_split env cmd CHR '';'' = Some [a, l]"
    and ad: "address = to_int (strtol a 16)"
    and ln: "ln = min (to_int (strtol l 10)) 255"
    and al: "malloc env (to_size_t ln) (dev w) = (ok, s1)"
    and rd: "nvm_read_mem env address ln s1 = ((result, rd), s2)"
    by blast+
  have lp: "read_loop [a, l] 0 0 0 = (2, address, ln)"
    unfolding ad ln by (simp add: Let_def UPDI_READ_STROKEN_LEN_def min_def)
  show "updi_read env cmd w =
               (if \<not> ok then (- 3, \<lparr>dev = s1, trace = trace w @ [Malloc Buf (to_size_t ln)]\<rparr>)
                else (if result \<noteq> 0 then - 4 else 0,
                      \<lparr>dev = s2, trace = trace w @ [Malloc Buf (to_size_t ln),
                                                     Read_mem address ln, Free Buf]\<rparr>))"
    unfolding updi_read_def sp option.case lp
    by (simp add: call_def al rd record_ev_def)
qed

text \<open>
  The claim of C9 fails at the command \<open>1000;-1\<close>: it has exactly two tokens, the
  allocation of \<open>(size_t)(-1)\<close> bytes fails, and \<^verbatim>\<open>updi_read\<close> returns \<open>-3\<close> with no
  driver read.
\<close>

theorem updi_read_negative_length_counterexample:
  "str_split (sim_env tiny_flash 0 0) ''1000;-1'' CHR '';'' = Some [''1000'', ''-1'']
   \<and> updi_read (sim_env tiny_flash 0 0) ''1000;-1'' world0 =
       (- 3, \<lparr>dev = (), trace = [Malloc Buf 18446744073709551615]\<rparr>)"
  by (simp add: updi_read_def sim_env_def world0_def call_def strtol_def isspace_def
        digit_of_def LONG_MAX_def LONG_MIN_def to_int_def to_size_t_def UPDI_READ_STROKEN_LEN_def Let_def)

text \<open>The theorem at the command \<open>1000;300\<close>: one read of 255 bytes at \<open>0x1000\<close>.\<close>

theorem updi_read_outcomes_witness:
  "updi_read (sim_env tiny_flash 0 0) ''1000;300'' world0 =
     (0, \<lparr>dev = (), trace = [Malloc Buf 255, Read_mem 0x1000 255, Free Buf]\<rparr>)"
proof -
  let ?E = "sim_env tiny_flash 0 0"
  have s: "str_split ?E ''1000;300'' CHR '';'' = Some [''1000'', ''300'']"
    by (simp add: sim_env_def)
  have a: "to_int (strtol ''1000'' 16) = 0x1000"
    by (simp add: strtol_def isspace_def digit_of_def LONG_MAX_def to_int_def)
  have l: "min (to_int (strtol ''300'' 10)) 255 = 255"
    by (simp add: strtol_def isspace_def digit_of_def LONG_MAX_def to_int_def)
  have m: "malloc ?E (to_size_t 255) (dev world0) = (True, ())"
    by (simp add: sim_env_def to_size_t_def)
  have r: "nvm_read_mem ?E 0x1000 255 () = ((0, \<lambda>i. 0xff), ())"
    by (simp add: sim_env_def)
  note th = updi_read_outcomes [of ?E "''1000;300''" world0, THEN conjunct2, THEN conjunct2,
      THEN spec, THEN spec, THEN spec, THEN spec, THEN spec, THEN spec, THEN spec, THEN spec, THEN spec,
      of "''1000''" "''300''" "0x1000" 255 True "()" 0 "\<lambda>i. 0xff" "()"]
  from th s a l m r show ?thesis
    by (simp add: world0_def to_size_t_def)
qed

subsection \<open>\<^verbatim>\<open>strtol\<close> ignores the case of letters\<close>

lemma of_char_toupper:
  "(of_char (toupper c) :: nat) =
     (if 97 \<le> (of_char c :: nat) \<and> (of_char c :: nat) \<le> 122 then of_char c - 32 else of_char c)"
  by (auto simp: toupper_def Let_def)

lemma digit_of_toupper: "digit_of (toupper c) = digit_of c"
  unfolding digit_of_def Let_def of_char_toupper by auto

lemma isspace_toupper: "isspace (toupper c) = isspace c"
  unfolding isspace_def Let_def of_char_toupper by auto

lemma char_eq_nat: "(c = d) = ((of_char c :: nat) = of_char d)"
  by simp

lemma toupper_eq_minus: "(toupper c = CHR ''-'') = (c = CHR ''-'')"
  unfolding char_eq_nat [of _ "CHR ''-''"] of_char_toupper by auto

lemma toupper_eq_plus: "(toupper c = CHR ''+'') = (c = CHR ''+'')"
  unfolding char_eq_nat [of _ "CHR ''+''"] of_char_toupper by auto

lemma toupper_eq_zero: "(toupper c = CHR ''0'') = (c = CHR ''0'')"
  unfolding char_eq_nat [of _ "CHR ''0''"] of_char_toupper by auto

lemma toupper_eq_x: "(toupper c = CHR ''x'' \<or> toupper c = CHR ''X'') = (c = CHR ''x'' \<or> c = CHR ''X'')"
  unfolding char_eq_nat [of _ "CHR ''x''"] char_eq_nat [of _ "CHR ''X''"] of_char_toupper by auto

lemma digits_val_toupper: "digits_val b (map toupper s) acc = digits_val b s acc"
  by (induction s arbitrary: acc) (auto simp: digit_of_toupper split: option.splits)

lemma skip_0x_toupper: "skip_0x b (map toupper s) = map toupper (skip_0x b s)"
  by (induction b s rule: skip_0x.induct) (auto simp: toupper_eq_zero toupper_eq_x)

lemma skip_sign_toupper: "skip_sign (map toupper s) = (fst (skip_sign s), map toupper (snd (skip_sign s)))"
  by (cases s) (auto simp: toupper_eq_minus toupper_eq_plus)

lemma dropWhile_isspace_toupper:
  "dropWhile isspace (map toupper s) = map toupper (dropWhile isspace s)"
  by (induction s) (auto simp: isspace_toupper)

lemma strtol_toupper: "strtol (map toupper s) base = strtol s base"
  by (simp add: strtol_def dropWhile_isspace_toupper skip_sign_toupper skip_0x_toupper
        digits_val_toupper split: prod.splits)

subsection \<open>The fuse configurator\<close>

lemma fuse_loop_count: "fst (fuse_loop ts i idx val) = i + length ts"
  by (induction ts arbitrary: i idx val) auto


text \<open>
  C6. \<^verbatim>\<open>updi_fuse\<close> splits the string at \<open>:\<close>.
  \<^item> A \<^verbatim>\<open>NULL\<close> from \<^verbatim>\<open>str_split\<close> returns \<open>-2\<close> and any token count other than 2
    returns \<open>-4\<close>, both without a call: the world is unchanged.
  \<^item> With exactly the two tokens \<open>a\<close> and \<open>v\<close>, the index is \<open>a\<close> read in base 10,
    the value is \<open>v\<close> read in base 16 and cut to a byte, and exactly one fuse write
    with them is issued; its failure returns \<open>-3\<close>, which differs from the two
    parse errors, its success 0.
  \<^item> Reading in base 16 gives the same number for a string and for its upper-case
    form.
\<close>

theorem updi_fuse_outcomes:
  "(str_split env str CHR '':'' = None \<longrightarrow> updi_fuse env str w = (- 2, w))
   \<and> (\<forall>tokens. str_split env str CHR '':'' = Some tokens \<and> length tokens \<noteq> 2
         \<longrightarrow> updi_fuse env str w = (- 4, w))
   \<and> (\<forall>a v idx val result s1.
         str_split env str CHR '':'' = Some [a, v]
         \<and> idx = to_int (strtol a 10)
         \<and> val = word_of_int (to_int (strtol v 16))
         \<and> nvm_write_fuse env idx val (dev w) = (result, s1)
         \<longrightarrow> updi_fuse env str w =
               (if result \<noteq> 0 then - 3 else 0,
                \<lparr>dev = s1, trace = trace w @ [Write_fuse idx val]\<rparr>))
   \<and> (\<forall>v. strtol (map toupper v) 16 = strtol v 16)"
proof (intro conjI allI impI)
  assume "str_split env str CHR '':'' = None"
  then show "updi_fuse env str w = (- 2, w)"
    by (simp add: updi_fuse_def)
next
  fix tokens
  assume h: "str_split env str CHR '':'' = Some tokens \<and> length tokens \<noteq> 2"
  obtain i idx val where r: "fuse_loop tokens 0 0 0 = (i, idx, val)"
    by (cases "fuse_loop tokens 0 0 0") auto
  with fuse_loop_count [of tokens 0 0 0] have "i = length tokens" by simp
  with h r show "updi_fuse env str w = (- 4, w)"
    by (simp add: updi_fuse_def)
next
  fix a v idx val result s1
  assume "str_split env str CHR '':'' = Some [a, v]
         \<and> idx = to_int (strtol a 10)
         \<and> val = word_of_int (to_int (strtol v 16))
         \<and> nvm_write_fuse env idx val (dev w) = (result, s1)"
  then have sp: "str_split env str CHR '':'' = Some [a, v]"
    and ix: "idx = to_int (strtol a 10)"
    and vl: "val = word_of_int (to_int (strtol v 16))"
    and wr: "nvm_write_fuse env idx val (dev w) = (result, s1)"
    by blast+
  have lp: "fuse_loop [a, v] 0 0 0 = (2, idx, to_int (strtol v 16))"
    unfolding ix by simp
  show "updi_fuse env str w =
               (if result \<noteq> 0 then - 3 else 0,
                \<lparr>dev = s1, trace = trace w @ [Write_fuse idx val]\<rparr>)"
    unfolding updi_fuse_def sp option.case lp
    using wr unfolding vl by (simp add: call_def)
next
  fix v show "strtol (map toupper v) 16 = strtol v 16"
    by (rule strtol_toupper)
qed

text \<open>
  The theorem at the spec \<open>3:0xaa\<close>, which writes \<open>0xAA\<close> to fuse 3, at the
  one-token spec \<open>3\<close>, and at the value \<open>0XAA\<close>.
\<close>

theorem updi_fuse_outcomes_witness:
  "updi_fuse (sim_env tiny_flash 0 0) ''3:0xaa'' world0 =
     (0, \<lparr>dev = (), trace = [Write_fuse 3 0xAA]\<rparr>)
   \<and> updi_fuse (sim_env tiny_flash 0 0) ''3'' world0 = (- 4, world0)
   \<and> strtol ''0XAA'' 16 = strtol ''0xaa'' 16"
proof (intro conjI)
  let ?E = "sim_env tiny_flash 0 0"
  have s: "str_split ?E ''3:0xaa'' CHR '':'' = Some [''3'', ''0xaa'']"
    by (simp add: sim_env_def)
  have a: "to_int (strtol ''3'' 10) = 3"
    by (simp add: strtol_def isspace_def digit_of_def LONG_MAX_def to_int_def)
  have v: "word_of_int (to_int (strtol ''0xaa'' 16)) = (0xAA :: u8)"
    by (simp add: strtol_def isspace_def digit_of_def LONG_MAX_def to_int_def)
  have f: "nvm_write_fuse ?E 3 0xAA (dev world0) = (0, ())"
    by (simp add: sim_env_def)
  note th = updi_fuse_outcomes [of ?E "''3:0xaa''" world0, THEN conjunct2, THEN conjunct2,
      THEN conjunct1, THEN spec, THEN spec, THEN spec, THEN spec, THEN spec, THEN spec,
      of "''3''" "''0xaa''" 3 "0xAA" 0 "()"]
  from th s a v f show "updi_fuse ?E ''3:0xaa'' world0 =
     (0, \<lparr>dev = (), trace = [Write_fuse 3 0xAA]\<rparr>)"
    by (simp add: world0_def)
next
  let ?E = "sim_env tiny_flash 0 0"
  have s: "str_split ?E ''3'' CHR '':'' = Some [''3'']"
    by (simp add: sim_env_def)
  note th = updi_fuse_outcomes [of ?E "''3''" world0, THEN conjunct2, THEN conjunct1,
      THEN spec, of "[''3'']"]
  from th s show "updi_fuse ?E ''3'' world0 = (- 4, world0)"
    by simp
next
  have "map toupper ''0xaa'' = ''0XAA''"
    by (simp add: char_eq_nat [of "toupper c" for c] of_char_toupper)
  with updi_fuse_outcomes [of "sim_env tiny_flash 0 0" "''3:0xaa''" world0, THEN conjunct2,
      THEN conjunct2, THEN conjunct2, THEN spec, of "''0xaa''"]
  show "strtol ''0XAA'' 16 = strtol ''0xaa'' 16"
    by simp
qed

subsection \<open>The direct write command\<close>

declare windows.simps [simp del]
declare readback.simps [simp del]

lemma windows_Nil: "windows [] = []"
  by (simp add: windows.simps)

lemma windows_short: "bs \<noteq> [] \<Longrightarrow> length bs \<le> 16 \<Longrightarrow> windows bs = [bs]"
  by (subst windows.simps) (simp add: windows_Nil)

lemma windows_full: "length c = 16 \<Longrightarrow> windows (c @ bs) = c # windows bs"
  by (subst windows.simps) auto

lemma write_loop_skip:
  "result \<noteq> 0 \<Longrightarrow> 0 < i \<Longrightarrow>
     write_loop env ts i address j buf dirty result w =
       ((i + int (length ts), address, j, buf, dirty, result), w)"
  by (induction ts arbitrary: i) auto

lemma write_loop_windows:
  assumes "i = 1 + 16 * int k + int (length pend)"
    and "length pend < 16"
    and "length buf = 16"
    and "take (length pend) buf = pend"
    and "dirty = (pend \<noteq> [])"
    and "pend \<noteq> [] \<longrightarrow> j = int (length pend) - 1"
  shows "(case write_loop env ts i address j buf dirty 0 w of
            ((i', address', j', buf', dirty', result'), w1) \<Rightarrow>
              (i', address', write_left env i' address' j' buf' dirty' result' w1)) =
         (i + int (length ts), address,
          flush_windows env (address + 16 * int k) (windows (pend @ map byte_of ts)) w)"
  using assms
proof (induction ts arbitrary: i j buf dirty pend k w)
  case Nil
  show ?case
  proof (cases "pend = []")
    case True
    with Nil show ?thesis by (simp add: write_left_def windows_Nil)
  next
    case False
    with Nil have w: "windows pend = [pend]" by (simp add: windows_short)
    from False Nil have j: "j = int (length pend) - 1" by simp
    from False Nil show ?thesis
      by (simp add: write_left_def w j split: prod.splits)
  qed
next
  case (Cons t ts)
  let ?p = "length pend"
  let ?buf = "buf[?p := byte_of t]"
  have i0: "i \<noteq> 0" using Cons.prems by simp
  have jj: "(i - 1) mod 16 = int ?p" using Cons.prems by simp
  have tk: "take (Suc ?p) ?buf = pend @ [byte_of t]"
    using Cons.prems by (simp add: take_Suc_conv_app_nth)
  show ?case
  proof (cases "Suc ?p = 16")
    case True
    then have full: "length (pend @ [byte_of t]) = 16" by simp
    have ws: "windows (pend @ map byte_of (t # ts)) = (pend @ [byte_of t]) # windows (map byte_of ts)"
      using windows_full [OF full, of "map byte_of ts"] by simp
    obtain r w1 where c: "call (Write_mem (address + 16 * int k) (pend @ [byte_of t]))
            (nvm_write_mem env (address + 16 * int k) (pend @ [byte_of t])) w = (r, w1)"
      by (cases "call (Write_mem (address + 16 * int k) (pend @ [byte_of t]))
            (nvm_write_mem env (address + 16 * int k) (pend @ [byte_of t])) w") auto
    have ad: "address + i - int ?p - 1 = address + 16 * int k" using Cons.prems by simp
    have nj: "nat (int ?p + 1) = Suc ?p" by simp
    from True have p15: "?p = 15" by simp
    from ad p15 have ad': "address + i - 16 = address + 16 * int k" by simp
    from tk p15 have tk': "take 16 (buf[15 := byte_of t]) = pend @ [byte_of t]" by simp
    have step: "write_loop env (t # ts) i address j buf dirty 0 w =
        write_loop env ts (i + 1) address (int ?p) ?buf False (if r \<noteq> 0 then - 3 else r) w1"
      using i0 p15 c by (simp add: UPDI_WRITE_STROKEN_LEN_def jj Let_def ad' tk')
    show ?thesis
    proof (cases "r = 0")
      case False
      have "0 < i + 1" using Cons.prems by simp
      with False p15 show ?thesis
        unfolding step ws
        by (simp add: write_loop_skip write_left_def c)
    next
      case r0: True
      have ih: "(case write_loop env ts (i + 1) address (int ?p) ?buf False 0 w1 of
            ((i', address', j', buf', dirty', result'), w1) \<Rightarrow>
              (i', address', write_left env i' address' j' buf' dirty' result' w1)) =
         (i + 1 + int (length ts), address,
          flush_windows env (address + 16 * int (Suc k)) (windows ([] @ map byte_of ts)) w1)"
        using Cons.prems True by (intro Cons.IH) auto
      have a16: "address + 16 * int (Suc k) = address + 16 * int k + 16" by simp
      have rhs: "flush_windows env (address + 16 * int k)
                   ((pend @ [byte_of t]) # windows (map byte_of ts)) w =
                 flush_windows env (address + 16 * int k + 16) (windows (map byte_of ts)) w1"
        using c r0 by simp
      have il: "i + 1 + int (length ts) = i + int (length (t # ts))" by simp
      show ?thesis
        unfolding step ws rhs using r0 ih unfolding a16 il by simp
    qed
  next
    case False
    have step: "write_loop env (t # ts) i address j buf dirty 0 w =
        write_loop env ts (i + 1) address (int ?p) ?buf True 0 w"
      using i0 False by (simp add: UPDI_WRITE_STROKEN_LEN_def jj Let_def)
    have ih: "(case write_loop env ts (i + 1) address (int ?p) ?buf True 0 w of
            ((i', address', j', buf', dirty', result'), w1) \<Rightarrow>
              (i', address', write_left env i' address' j' buf' dirty' result' w1)) =
         (i + 1 + int (length ts), address,
          flush_windows env (address + 16 * int k) (windows ((pend @ [byte_of t]) @ map byte_of ts)) w)"
      using Cons.prems False tk by (intro Cons.IH) auto
    show ?thesis
      unfolding step using ih by (simp add: algebra_simps)
  qed
qed


lemma readback_windows:
  "readback env address (1 + int (length bs)) (16 * int k) w =
     read_windows env (address + 16 * int k) (windows (drop (16 * k) bs)) w"
proof (induction "length bs - 16 * k" arbitrary: k w rule: less_induct)
  case less
  show ?case
  proof (cases "16 * k < length bs")
    case False
    then have "drop (16 * k) bs = []" by simp
    with False show ?thesis
      by (subst readback.simps) (simp add: windows_Nil)
  next
    case True
    let ?c = "take 16 (drop (16 * k) bs)"
    have ne: "drop (16 * k) bs \<noteq> []" using True by simp
    have ws: "windows (drop (16 * k) bs) = ?c # windows (drop (16 * Suc k) bs)"
      using ne by (subst windows.simps) (simp add: add.commute)
    have ln: "(if 1 + int (length bs) - 16 * int k - 1 > 16 then 16
               else 1 + int (length bs) - 16 * int k - 1) = int (length ?c)"
      using True by (auto simp: min_def)
    have ih: "readback env address (1 + int (length bs)) (16 * int (Suc k)) w' =
        read_windows env (address + 16 * int (Suc k)) (windows (drop (16 * Suc k) bs)) w'" for w'
      using True by (intro less) simp
    have j16: "16 * int k + 16 = 16 * int (Suc k)" by simp
    have a16: "address + 16 * int k + 16 = address + 16 * int (Suc k)" by simp
    have lt: "16 * int k < 1 + int (length bs) - 1" using True by simp
    show ?thesis
      apply (subst readback.simps)
      unfolding ws read_windows.simps Let_def UPDI_WRITE_STROKEN_LEN_def ln j16 a16 ih
      using lt by (simp split: prod.splits)
  qed
qed

lemma concat_windows: "concat (windows bs) = bs"
proof (induction bs rule: windows.induct)
  case (1 bs)
  then show ?case by (subst windows.simps) simp
qed

lemma length_windows: "c \<in> set (windows bs) \<Longrightarrow> 0 < length c \<and> length c \<le> 16"
proof (induction bs rule: windows.induct)
  case (1 bs)
  from "1.prems" have ne: "bs \<noteq> []" by (auto simp: windows_Nil)
  with "1.prems" have "c = take 16 bs \<or> c \<in> set (windows (drop 16 bs))"
    by (subst (asm) windows.simps) simp
  with ne "1.IH" show ?case by auto
qed

lemma butlast_windows: "c \<in> set (butlast (windows bs)) \<Longrightarrow> length c = 16"
proof (induction bs rule: windows.induct)
  case (1 bs)
  from "1.prems" have ne: "bs \<noteq> []" by (auto simp: windows_Nil)
  then have ws: "windows bs = take 16 bs # windows (drop 16 bs)"
    by (subst windows.simps) simp
  show ?case
  proof (cases "windows (drop 16 bs) = []")
    case True
    with "1.prems" ws show ?thesis by simp
  next
    case False
    then have "drop 16 bs \<noteq> []" by (auto simp: windows_Nil)
    then have "length (take 16 bs) = 16" by simp
    moreover from "1.prems" ws False
    have "c = take 16 bs \<or> c \<in> set (butlast (windows (drop 16 bs)))" by simp
    ultimately show ?thesis using "1.IH" [OF ne] by auto
  qed
qed

text \<open>
  C3. For a command that \<^verbatim>\<open>str_split\<close> cuts into an address token and byte tokens,
  \<^verbatim>\<open>updi_write\<close> does what the window description \<^const>\<open>write_spec\<close> says, for every
  driver: the bytes are written window by window, each window as one driver
  write at the address plus 16 times its number; the remainder is written
  after the last token; the first failing write ends the command with \<open>-3\<close>
  (full window) or \<open>-4\<close> (remainder), and no read follows; if every write
  succeeded, the windows are read back in order, each with its own length, and
  the first failing read ends the command with \<open>-5\<close>. The windows are a
  partition of the bytes in order, none empty, none longer than 16, and all
  but the last of length 16.
\<close>

theorem updi_write_windows:
  assumes "str_split env cmd CHR '';'' = Some (a # ts)"
    and "bs = map byte_of ts"
  shows "updi_write env cmd w = write_spec env (to_int (strtol a 16)) bs w
       \<and> concat (windows bs) = bs
       \<and> (\<forall>c \<in> set (windows bs). 0 < length c \<and> length c \<le> 16)
       \<and> (\<forall>c \<in> set (butlast (windows bs)). length c = 16)"
proof -
  let ?address = "to_int (strtol a 16)"
  let ?buf = "replicate (nat UPDI_WRITE_STROKEN_LEN) (0 :: u8)"
  have first: "write_loop env (a # ts) 0 0 0 ?buf False 0 w =
                 write_loop env ts 1 ?address 0 ?buf False 0 w"
    by simp
  have loop: "(case write_loop env ts 1 ?address 0 ?buf False 0 w of
            ((i', address', j', buf', dirty', result'), w1) \<Rightarrow>
              (i', address', write_left env i' address' j' buf' dirty' result' w1)) =
         (1 + int (length ts), ?address,
          flush_windows env (?address + 16 * int 0) (windows ([] @ map byte_of ts)) w)"
    by (rule write_loop_windows) (simp_all add: UPDI_WRITE_STROKEN_LEN_def)
  have rb: "readback env ?address (1 + int (length ts)) 0 w' =
              read_windows env ?address (windows bs) w'" for w'
    using readback_windows [of env ?address bs 0 w'] assms(2) by simp
  have "updi_write env cmd w = write_spec env ?address bs w"
    unfolding updi_write_def assms(1) option.case first write_spec_def
    using loop rb assms(2) by (auto split: prod.splits)
  then show ?thesis
    using concat_windows length_windows butlast_windows by blast
qed


text \<open>
  The theorem at the address \<open>2000\<close> with 17 byte tokens: two writes, 16 bytes at
  \<open>0x2000\<close> and one byte at \<open>0x2010\<close>, then two reads of 16 and 1 bytes; and on a
  driver that refuses the write at \<open>0x2000\<close>: the command ends after that write.
\<close>

theorem updi_write_windows_witness:
  "updi_write (sim_env tiny_flash 0 0) cmd17 world0 =
     (0, \<lparr>dev = (), trace =
        [Write_mem 0x2000 [0, 1, 2, 3, 4, 5, 6, 7, 8, 9, 10, 11, 12, 13, 14, 15],
         Write_mem 0x2010 [16], Read_mem 0x2000 16, Read_mem 0x2010 1]\<rparr>)
   \<and> updi_write (write_fails_at 0x2000 (sim_env tiny_flash 0 0)) cmd17 world0 =
     (- 3, \<lparr>dev = (), trace =
        [Write_mem 0x2000 [0, 1, 2, 3, 4, 5, 6, 7, 8, 9, 10, 11, 12, 13, 14, 15]]\<rparr>)"
proof
  let ?E = "sim_env tiny_flash 0 0"
  have s: "str_split ?E cmd17 CHR '';'' = Some (''2000'' # toks17)"
    by (simp add: sim_env_def cmd17_def toks17_def)
  have b: "[0, 1, 2, 3, 4, 5, 6, 7, 8, 9, 10, 11, 12, 13, 14, 15, 16] = map byte_of toks17"
    by (simp add: toks17_def strtol_def isspace_def digit_of_def LONG_MAX_def)
  have a: "to_int (strtol ''2000'' 16) = 0x2000"
    by (simp add: strtol_def isspace_def digit_of_def LONG_MAX_def to_int_def)
  from updi_write_windows [OF s b, of world0]
  have "updi_write ?E cmd17 world0 =
          write_spec ?E 0x2000 [0, 1, 2, 3, 4, 5, 6, 7, 8, 9, 10, 11, 12, 13, 14, 15, 16] world0"
    unfolding a by blast
  then show "updi_write ?E cmd17 world0 =
     (0, \<lparr>dev = (), trace =
        [Write_mem 0x2000 [0, 1, 2, 3, 4, 5, 6, 7, 8, 9, 10, 11, 12, 13, 14, 15],
         Write_mem 0x2010 [16], Read_mem 0x2000 16, Read_mem 0x2010 1]\<rparr>)"
    by (simp add: write_spec_def windows.simps sim_env_def world0_def call_def)
next
  let ?E = "write_fails_at 0x2000 (sim_env tiny_flash 0 0)"
  have s: "str_split ?E cmd17 CHR '';'' = Some (''2000'' # toks17)"
    by (simp add: sim_env_def cmd17_def toks17_def write_fails_at_def)
  have b: "[0, 1, 2, 3, 4, 5, 6, 7, 8, 9, 10, 11, 12, 13, 14, 15, 16] = map byte_of toks17"
    by (simp add: toks17_def strtol_def isspace_def digit_of_def LONG_MAX_def)
  have a: "to_int (strtol ''2000'' 16) = 0x2000"
    by (simp add: strtol_def isspace_def digit_of_def LONG_MAX_def to_int_def)
  from updi_write_windows [OF s b, of world0]
  have "updi_write ?E cmd17 world0 =
          write_spec ?E 0x2000 [0, 1, 2, 3, 4, 5, 6, 7, 8, 9, 10, 11, 12, 13, 14, 15, 16] world0"
    unfolding a by blast
  then show "updi_write ?E cmd17 world0 =
     (- 3, \<lparr>dev = (), trace =
        [Write_mem 0x2000 [0, 1, 2, 3, 4, 5, 6, 7, 8, 9, 10, 11, 12, 13, 14, 15]]\<rparr>)"
    by (simp add: write_spec_def windows.simps sim_env_def world0_def call_def write_fails_at_def)
qed

subsection \<open>Saving the flash\<close>

lemma map_const_upt: "map (\<lambda>i. c) [0..<n] = replicate n c"
  by (simp add: map_replicate_const)

lemma to_int_id: "- (2 ^ 31) \<le> v \<Longrightarrow> v < 2 ^ 31 \<Longrightarrow> to_int v = v"
  by (simp add: to_int_def)

lemma to_size_t_id: "0 \<le> v \<Longrightarrow> v < 2 ^ 64 \<Longrightarrow> to_size_t v = nat v"
  by (simp add: to_size_t_def)

lemma size_t_of_small:
  assumes "t < 2 ^ 31"
  shows "to_size_t (to_int (int t)) = t"
proof -
  from assms have lt: "int t < 2 ^ 31" by simp
  then have "to_int (int t) = int t"
    by (intro to_int_id) simp_all
  moreover from lt have "to_size_t (int t) = nat (int t)"
    by (intro to_size_t_id) simp_all
  ultimately show ?thesis by simp
qed

lemma updi_save_run:
  assumes geo: "nvm_get_flash_info env (dev w) = ((r_geo, flash), s1)"
    and size: "sz = to_size_t (to_int (int (unat (flash_size flash) + sizeof_hex_data env
                                               + length file + length ''.save'' + 1)))"
    and n: "n = unat (flash_size flash)"
    and alloc: "malloc env sz s1 = (ok, s2)"
    and rd: "nvm_read_flash env (flash_start flash) n s2 = ((r_read, rd), s3)"
    and img: "img = \<lparr>data = map rd [0..<n], len = flash_size flash, offset = 0,
                       total_size = flash_size flash, actual_size = flash_size flash,
                       addr_from = 0, addr_to = flash_size flash - 1\<rparr>"
    and sv: "save_hex_info env (file @ ''.save'') img s3 = (r_save, s4)"
  shows "updi_save env file w =
     (if r_geo \<noteq> 0 then (- 2, \<lparr>dev = s1, trace = trace w @ [Get_flash_info]\<rparr>)
      else if \<not> ok then (- 3, \<lparr>dev = s2, trace = trace w @ [Get_flash_info, Malloc Dhex sz]\<rparr>)
      else if r_read \<noteq> 0 then
        (- 4, \<lparr>dev = s3, trace = trace w @ [Get_flash_info, Malloc Dhex sz,
                                             Read_flash (flash_start flash) n, Free Dhex]\<rparr>)
      else (if r_save \<noteq> 0 then - 5 else 0,
            \<lparr>dev = s4, trace = trace w @ [Get_flash_info, Malloc Dhex sz,
                                         Read_flash (flash_start flash) n,
                                         Save_hex_info (file @ ''.save'') img, Free Dhex]\<rparr>))"
  using geo alloc rd sv unfolding size n img
  by (simp add: updi_save_def call_def record_ev_def new_file_posfix_def hex_zero_def Let_def)

text \<open>
  C2, as the code has it. The claim has the saved image span
  \<open>[flash_start, flash_start + flash_size - 1]\<close> and the buffer hold exactly
  \<open>flash_size\<close> bytes. In the code the image handed to the hex writer is addressed
  from zero, \<open>addr_from = 0\<close> and \<open>addr_to = flash_size - 1\<close>, and one block is
  allocated for the header, the data and the new file name. The rest holds.
  Let the geometry query return \<open>flash\<close>.
  \<^item> A failed geometry query returns \<open>-2\<close>.
  \<^item> One block of \<open>flash_size + sizeof(hex_data_t) + strlen(file) + 6\<close> bytes is
    requested (that number whenever it is below \<open>2^31\<close>); a failed allocation
    returns \<open>-3\<close>.
  \<^item> The driver is asked once for \<open>flash_size\<close> bytes at \<open>flash_start\<close>; a failed
    read returns \<open>-4\<close>.
  \<^item> The hex writer is called once, for the file \<open>file @ ''.save''\<close>, with an image
    of exactly \<open>flash_size\<close> bytes, the bytes read, with \<open>len = flash_size\<close>,
    \<open>addr_from = 0\<close> and \<open>addr_to = flash_size - 1\<close>; its failure returns \<open>-5\<close>.
  \<^item> Every result other than success is non-zero, and the block is freed on each
    path that obtained it.
\<close>

theorem updi_save_outcomes:
  assumes geo: "nvm_get_flash_info env (dev w) = ((r_geo, flash), s1)"
    and size: "sz = to_size_t (to_int (int (unat (flash_size flash) + sizeof_hex_data env
                                               + length file + length ''.save'' + 1)))"
    and n: "n = unat (flash_size flash)"
    and alloc: "malloc env sz s1 = (ok, s2)"
    and rd: "nvm_read_flash env (flash_start flash) n s2 = ((r_read, rd), s3)"
    and img: "img = \<lparr>data = map rd [0..<n], len = flash_size flash, offset = 0,
                       total_size = flash_size flash, actual_size = flash_size flash,
                       addr_from = 0, addr_to = flash_size flash - 1\<rparr>"
    and sv: "save_hex_info env (file @ ''.save'') img s3 = (r_save, s4)"
  shows "updi_save env file w =
     (if r_geo \<noteq> 0 then (- 2, \<lparr>dev = s1, trace = trace w @ [Get_flash_info]\<rparr>)
      else if \<not> ok then (- 3, \<lparr>dev = s2, trace = trace w @ [Get_flash_info, Malloc Dhex sz]\<rparr>)
      else if r_read \<noteq> 0 then
        (- 4, \<lparr>dev = s3, trace = trace w @ [Get_flash_info, Malloc Dhex sz,
                                             Read_flash (flash_start flash) n, Free Dhex]\<rparr>)
      else (if r_save \<noteq> 0 then - 5 else 0,
            \<lparr>dev = s4, trace = trace w @ [Get_flash_info, Malloc Dhex sz,
                                         Read_flash (flash_start flash) n,
                                         Save_hex_info (file @ ''.save'') img, Free Dhex]\<rparr>))
     \<and> length (data img) = unat (flash_size flash)
     \<and> len img = flash_size flash \<and> addr_from img = 0 \<and> addr_to img = flash_size flash - 1
     \<and> (unat (flash_size flash) + sizeof_hex_data env + length file + 6 < 2 ^ 31
          \<longrightarrow> sz = unat (flash_size flash) + sizeof_hex_data env + length file + 6)"
proof -
  have "unat (flash_size flash) + sizeof_hex_data env + length file + 6 < 2 ^ 31
          \<Longrightarrow> sz = unat (flash_size flash) + sizeof_hex_data env + length file + 6"
  proof -
    let ?t = "unat (flash_size flash) + sizeof_hex_data env + length file + 6"
    assume lt: "?t < 2 ^ 31"
    have e: "unat (flash_size flash) + sizeof_hex_data env + length file + length ''.save'' + 1 = ?t"
      by simp
    from lt show ?thesis unfolding size e by (rule size_t_of_small)
  qed
  with updi_save_run [OF geo size n alloc rd img sv] show ?thesis
    unfolding img n by simp
qed

text \<open>
  The claim of C2 fails on the device with flash at \<open>0x8000\<close> of 8192 bytes: the
  image written to \<open>fw.hex.save\<close> spans \<open>[0, 0x1fff]\<close>, not \<open>[0x8000, 0x9fff]\<close>,
  and the block requested has 8244 bytes.
\<close>

theorem updi_save_span_counterexample:
  "flash_start tiny_flash = 0x8000 \<and> flash_size tiny_flash = 0x2000
   \<and> updi_save (sim_env tiny_flash 0 0) ''fw.hex'' world0 =
     (0, \<lparr>dev = (), trace =
        [Get_flash_info, Malloc Dhex 8244, Read_flash 0x8000 8192,
         Save_hex_info ''fw.hex.save''
           \<lparr>data = replicate 8192 0xff, len = 0x2000, offset = 0, total_size = 0x2000,
            actual_size = 0x2000, addr_from = 0, addr_to = 0x1fff\<rparr>,
         Free Dhex]\<rparr>)"
proof (intro conjI)
  let ?E = "sim_env tiny_flash 0 0"
  have geo: "nvm_get_flash_info ?E (dev world0) = ((0, tiny_flash), ())"
    by (simp add: sim_env_def)
  have alloc: "malloc ?E (to_size_t (to_int (int (unat (flash_size tiny_flash)
                 + sizeof_hex_data ?E + length ''fw.hex'' + length ''.save'' + 1)))) () = (True, ())"
    by (simp add: sim_env_def tiny_flash_def to_int_def to_size_t_def)
  have rd: "nvm_read_flash ?E (flash_start tiny_flash) (unat (flash_size tiny_flash)) () =
              ((0, \<lambda>i. 0xff), ())"
    by (simp add: sim_env_def)
  have sv: "save_hex_info ?E (''fw.hex'' @ ''.save'') h () = (0, ())" for h
    by (simp add: sim_env_def)
  note run = updi_save_run [OF geo refl refl alloc rd refl sv, unfolded map_const_upt]
  show "updi_save ?E ''fw.hex'' world0 =
     (0, \<lparr>dev = (), trace =
        [Get_flash_info, Malloc Dhex 8244, Read_flash 0x8000 8192,
         Save_hex_info ''fw.hex.save''
           \<lparr>data = replicate 8192 0xff, len = 0x2000, offset = 0, total_size = 0x2000,
            actual_size = 0x2000, addr_from = 0, addr_to = 0x1fff\<rparr>,
         Free Dhex]\<rparr>)"
    unfolding run by (simp add: tiny_flash_def world0_def sim_env_def to_int_def to_size_t_def)
qed (simp_all add: tiny_flash_def)


text \<open>
  The theorem on that device: with an allocator that refuses, the save ends
  with \<open>-3\<close> after the allocation; with the simulated one it returns 0.
\<close>

theorem updi_save_outcomes_witness:
  "updi_save (no_memory (sim_env tiny_flash 0 0)) ''fw.hex'' world0 =
     (- 3, \<lparr>dev = (), trace = [Get_flash_info, Malloc Dhex 8244]\<rparr>)
   \<and> fst (updi_save (sim_env tiny_flash 0 0) ''fw.hex'' world0) = 0"
proof
  let ?E = "no_memory (sim_env tiny_flash 0 0)"
  have geo: "nvm_get_flash_info ?E (dev world0) = ((0, tiny_flash), ())"
    by (simp add: sim_env_def no_memory_def)
  have alloc: "malloc ?E (to_size_t (to_int (int (unat (flash_size tiny_flash)
                 + sizeof_hex_data ?E + length ''fw.hex'' + length ''.save'' + 1)))) () = (False, ())"
    by (simp add: sim_env_def no_memory_def)
  have rd: "nvm_read_flash ?E (flash_start tiny_flash) (unat (flash_size tiny_flash)) () =
              ((0, \<lambda>i. 0xff), ())"
    by (simp add: sim_env_def no_memory_def)
  have sv: "save_hex_info ?E (''fw.hex'' @ ''.save'') h () = (0, ())" for h
    by (simp add: sim_env_def no_memory_def)
  note run = updi_save_outcomes [OF geo refl refl alloc rd refl sv, THEN conjunct1]
  show "updi_save ?E ''fw.hex'' world0 =
     (- 3, \<lparr>dev = (), trace = [Get_flash_info, Malloc Dhex 8244]\<rparr>)"
    unfolding run
    by (simp add: tiny_flash_def world0_def sim_env_def no_memory_def to_int_def to_size_t_def)
next
  let ?E = "sim_env tiny_flash 0 0"
  have geo: "nvm_get_flash_info ?E (dev world0) = ((0, tiny_flash), ())"
    by (simp add: sim_env_def)
  have alloc: "malloc ?E (to_size_t (to_int (int (unat (flash_size tiny_flash)
                 + sizeof_hex_data ?E + length ''fw.hex'' + length ''.save'' + 1)))) () = (True, ())"
    by (simp add: sim_env_def tiny_flash_def to_int_def to_size_t_def)
  have rd: "nvm_read_flash ?E (flash_start tiny_flash) (unat (flash_size tiny_flash)) () =
              ((0, \<lambda>i. 0xff), ())"
    by (simp add: sim_env_def)
  have sv: "save_hex_info ?E (''fw.hex'' @ ''.save'') h () = (0, ())" for h
    by (simp add: sim_env_def)
  note run = updi_save_outcomes [OF geo refl refl alloc rd refl sv, THEN conjunct1]
  show "fst (updi_save ?E ''fw.hex'' world0) = 0"
    unfolding run by simp
qed

subsection \<open>Programming and checking\<close>

lemma quiet_refl: "quiet w w"
  by (simp add: quiet_def)

lemma quiet_trans: "quiet w w1 \<Longrightarrow> quiet w1 w2 \<Longrightarrow> quiet w w2"
  by (fastforce simp: quiet_def)

lemma quiet_call: "\<not> device_mutation ev \<Longrightarrow> call ev f w = (r, w') \<Longrightarrow> quiet w w'"
  by (auto simp: quiet_def call_def split: prod.splits)

lemma quiet_record: "\<not> device_mutation ev \<Longrightarrow> quiet w (record_ev ev w)"
  by (simp add: quiet_def record_ev_def)

lemma quiet_load_hex: "load_hex env file flash w = (r, w') \<Longrightarrow> quiet w w'"
  unfolding load_hex_def Let_def quiet_def call_def record_ev_def
  by (auto split: prod.splits if_splits)

lemma quiet_verify_hex: "verify_hex env dhex w = (r, w') \<Longrightarrow> quiet w w'"
  unfolding verify_hex_def Let_def quiet_def call_def record_ev_def
  by (auto split: prod.splits if_splits)


lemma quiet_updi_flash_check: "updi_flash env file False w = (r, w') \<Longrightarrow> quiet w w'"
proof -
  assume run: "updi_flash env file False w = (r, w')"
  obtain rg flash w1 where g: "call Get_flash_info (nvm_get_flash_info env) w = ((rg, flash), w1)"
    by (metis surj_pair)
  then have q1: "quiet w w1"
    by (rule quiet_call [rotated]) simp
  show ?thesis
  proof (cases "rg = 0")
    case False
    with run g have "w' = w1" by (simp add: updi_flash_def unload_hex_def)
    with q1 show ?thesis by simp
  next
    case True
    obtain rl w2 where l: "load_hex env file flash w1 = (rl, w2)"
      by (metis surj_pair)
    then have q2: "quiet w1 w2" by (rule quiet_load_hex)
    show ?thesis
    proof (cases rl)
      case (Inl e)
      with run g True l have "w' = w2" by (simp add: updi_flash_def)
      with q1 q2 show ?thesis by (blast intro: quiet_trans)
    next
      case (Inr dhex)
      obtain rv w6 where v: "verify_hex env dhex w2 = (rv, w6)"
        by (metis surj_pair)
      then have q3: "quiet w2 w6" by (rule quiet_verify_hex)
      from run g True l Inr v have "w' = record_ev (Free Dhex) w6"
        by (auto simp: updi_flash_def unload_hex_def split: if_splits)
      moreover have "quiet w6 (record_ev (Free Dhex) w6)"
        by (rule quiet_record) simp
      ultimately show ?thesis using q1 q2 q3 by (blast intro: quiet_trans)
    qed
  qed
qed

text \<open>
  C7. Without the program bit, every call \<^verbatim>\<open>updi_flash\<close> makes leaves the device
  unchanged, whatever the driver answers: no chip erase, no flash write. When
  the geometry query and \<^verbatim>\<open>load_hex\<close> succeed, with the image \<open>dhex\<close>:
  \<^item> without the program bit, \<^verbatim>\<open>verify_hex\<close> runs next, on \<open>dhex\<close>;
  \<^item> with the program bit, the chip erase comes first, then one write of the whole
    image at \<open>dhex->addr_from\<close>, then \<^verbatim>\<open>verify_hex\<close> on the same \<open>dhex\<close>; a failed
    erase or write ends the sequence with \<open>-3\<close>;
  \<^item> in both modes the result is 0 when \<^verbatim>\<open>verify_hex\<close> returns 0 and \<open>-3\<close> otherwise,
    and the image is freed last.
\<close>

theorem updi_flash_sequence:
  "(\<forall>r w'. updi_flash env file False w = (r, w') \<longrightarrow> quiet w w')
   \<and> (\<forall>flash s1 w1 dhex w2 bytes r1 s3 r2 s4 w4.
         nvm_get_flash_info env (dev w) = ((0, flash), s1)
         \<and> w1 = \<lparr>dev = s1, trace = trace w @ [Get_flash_info]\<rparr>
         \<and> load_hex env file flash w1 = (Inr dhex, w2)
         \<and> bytes = take (unat (len dhex)) (data dhex)
         \<and> nvm_chip_erase env (dev w2) = (r1, s3)
         \<and> nvm_write_flash env (addr_from dhex) bytes s3 = (r2, s4)
         \<and> w4 = \<lparr>dev = s4, trace = trace w2 @ [Chip_erase, Write_flash (addr_from dhex) bytes]\<rparr>
       \<longrightarrow>
         updi_flash env file False w =
           (case verify_hex env dhex w2 of (r, w6) \<Rightarrow>
              (if r \<noteq> 0 then - 3 else 0, record_ev (Free Dhex) w6))
         \<and> updi_flash env file True w =
           (if r1 \<noteq> 0 then (- 3, \<lparr>dev = s3, trace = trace w2 @ [Chip_erase, Free Dhex]\<rparr>)
            else if r2 \<noteq> 0 then
              (- 3, \<lparr>dev = s4, trace = trace w2 @ [Chip_erase, Write_flash (addr_from dhex) bytes,
                                                   Free Dhex]\<rparr>)
            else (case verify_hex env dhex w4 of (r, w6) \<Rightarrow>
                    (if r \<noteq> 0 then - 3 else 0, record_ev (Free Dhex) w6))))"
proof (intro conjI allI impI)
  fix r w' assume "updi_flash env file False w = (r, w')"
  then show "quiet w w'" by (rule quiet_updi_flash_check)
next
  fix flash s1 w1 dhex w2 bytes r1 s3 r2 s4 w4
  assume h: "nvm_get_flash_info env (dev w) = ((0, flash), s1)
         \<and> w1 = \<lparr>dev = s1, trace = trace w @ [Get_flash_info]\<rparr>
         \<and> load_hex env file flash w1 = (Inr dhex, w2)
         \<and> bytes = take (unat (len dhex)) (data dhex)
         \<and> nvm_chip_erase env (dev w2) = (r1, s3)
         \<and> nvm_write_flash env (addr_from dhex) bytes s3 = (r2, s4)
         \<and> w4 = \<lparr>dev = s4, trace = trace w2 @ [Chip_erase, Write_flash (addr_from dhex) bytes]\<rparr>"
  then have geo: "nvm_get_flash_info env (dev w) = ((0, flash), s1)"
    and w1: "w1 = \<lparr>dev = s1, trace = trace w @ [Get_flash_info]\<rparr>"
    and l: "load_hex env file flash w1 = (Inr dhex, w2)"
    and b: "bytes = take (unat (len dhex)) (data dhex)"
    and er: "nvm_chip_erase env (dev w2) = (r1, s3)"
    and wf: "nvm_write_flash env (addr_from dhex) bytes s3 = (r2, s4)"
    and w4: "w4 = \<lparr>dev = s4, trace = trace w2 @ [Chip_erase, Write_flash (addr_from dhex) bytes]\<rparr>"
    by blast+
  have g: "call Get_flash_info (nvm_get_flash_info env) w = ((0, flash), w1)"
    unfolding w1 using geo by (simp add: call_def)
  show "updi_flash env file False w =
           (case verify_hex env dhex w2 of (r, w6) \<Rightarrow>
              (if r \<noteq> 0 then - 3 else 0, record_ev (Free Dhex) w6))"
    unfolding updi_flash_def g using l
    by (simp add: unload_hex_def split: prod.splits)
  have e: "call Chip_erase (nvm_chip_erase env) w2 =
                    (r1, \<lparr>dev = s3, trace = trace w2 @ [Chip_erase]\<rparr>)"
    using er by (simp add: call_def)
  have wr: "call (Write_flash (addr_from dhex) bytes) (nvm_write_flash env (addr_from dhex) bytes)
                     \<lparr>dev = s3, trace = trace w2 @ [Chip_erase]\<rparr> = (r2, w4)"
    unfolding w4 using wf by (simp add: call_def)
  show "updi_flash env file True w =
           (if r1 \<noteq> 0 then (- 3, \<lparr>dev = s3, trace = trace w2 @ [Chip_erase, Free Dhex]\<rparr>)
            else if r2 \<noteq> 0 then
              (- 3, \<lparr>dev = s4, trace = trace w2 @ [Chip_erase, Write_flash (addr_from dhex) bytes,
                                                   Free Dhex]\<rparr>)
            else (case verify_hex env dhex w4 of (r, w6) \<Rightarrow>
                    (if r \<noteq> 0 then - 3 else 0, record_ev (Free Dhex) w6)))"
    using l e wr unfolding updi_flash_def g w4 b
    by (simp add: unload_hex_def record_ev_def Let_def split: prod.splits)
qed


lemma verify_one_page:
  "verify_hex (sim_env fl a b) one_page w =
     (0, \<lparr>dev = (), trace = trace w @ [Malloc Rdata 64, Read_flash 0x8000 64, Free Rdata]\<rparr>)"
proof -
  have "verify_loop (replicate 64 0xff) (replicate 64 0xff) 0 64 = 64"
    by (rule verify_loop_runs) simp_all
  then show ?thesis
    by (simp add: verify_hex_def one_page_def sim_env_def call_def record_ev_def map_const_upt)
qed

text \<open>
  The theorem on the blank device with a hex file of one page: the check makes
  the geometry query, the two hex reader calls and the read of 64 bytes; the
  programming run puts the chip erase and one write of 64 bytes before the same
  read.
\<close>

theorem updi_flash_sequence_witness:
  "updi_flash (sim_env tiny_flash 0 0x3f) ''fw.hex'' False world0 =
     (0, \<lparr>dev = (), trace =
        [Get_flash_info, Get_hex_info ''fw.hex'', Malloc Dhex 104, Get_hex_info ''fw.hex'',
         Malloc Rdata 64, Read_flash 0x8000 64, Free Rdata, Free Dhex]\<rparr>)
   \<and> updi_flash (sim_env tiny_flash 0 0x3f) ''fw.hex'' True world0 =
     (0, \<lparr>dev = (), trace =
        [Get_flash_info, Get_hex_info ''fw.hex'', Malloc Dhex 104, Get_hex_info ''fw.hex'',
         Chip_erase, Write_flash 0x8000 (replicate 64 0xff),
         Malloc Rdata 64, Read_flash 0x8000 64, Free Rdata, Free Dhex]\<rparr>)"
proof -
  let ?E = "sim_env tiny_flash 0 0x3f"
  let ?w1 = "\<lparr>dev = (), trace = trace world0 @ [Get_flash_info]\<rparr>"
  let ?w2 = "\<lparr>dev = (), trace = [Get_flash_info, Get_hex_info ''fw.hex'', Malloc Dhex 104,
                                  Get_hex_info ''fw.hex'']\<rparr>"
  let ?w4 = "\<lparr>dev = (), trace = trace ?w2 @ [Chip_erase, Write_flash (addr_from one_page)
                                  (take (unat (len one_page)) (data one_page))]\<rparr>"
  have geo: "nvm_get_flash_info ?E (dev world0) = ((0, tiny_flash), ())"
    by (simp add: sim_env_def)
  have load: "load_hex ?E ''fw.hex'' tiny_flash ?w1 = (Inr one_page, ?w2)"
    by (simp add: load_hex_def sim_env_def tiny_flash_def world0_def call_def hex_zero_def
          one_page_def)
  have er: "nvm_chip_erase ?E (dev ?w2) = (0, ())"
    by (simp add: sim_env_def)
  have wr: "nvm_write_flash ?E (addr_from one_page) (take (unat (len one_page)) (data one_page)) ()
              = (0, ())"
    by (simp add: sim_env_def)
  have h: "nvm_get_flash_info ?E (dev world0) = ((0, tiny_flash), ())
         \<and> ?w1 = \<lparr>dev = (), trace = trace world0 @ [Get_flash_info]\<rparr>
         \<and> load_hex ?E ''fw.hex'' tiny_flash ?w1 = (Inr one_page, ?w2)
         \<and> take (unat (len one_page)) (data one_page) = take (unat (len one_page)) (data one_page)
         \<and> nvm_chip_erase ?E (dev ?w2) = (0, ())
         \<and> nvm_write_flash ?E (addr_from one_page) (take (unat (len one_page)) (data one_page)) ()
              = (0, ())
         \<and> ?w4 = \<lparr>dev = (), trace = trace ?w2 @ [Chip_erase, Write_flash (addr_from one_page)
                                  (take (unat (len one_page)) (data one_page))]\<rparr>"
    using geo load er wr by blast
  note th = updi_flash_sequence [of ?E "''fw.hex''" world0, THEN conjunct2, rule_format, OF h]
  from th show ?thesis
    by (simp add: verify_one_page) (simp add: one_page_def record_ev_def)
qed

subsection \<open>The sequencing of \<^verbatim>\<open>main\<close>\<close>

lemma steady_refl: "steady w w"
  by (simp add: steady_def)

lemma steady_trans: "steady w w1 \<Longrightarrow> steady w1 w2 \<Longrightarrow> steady w w2"
  by (fastforce simp: steady_def)

lemma steady_call: "call ev f w = (r, w') \<Longrightarrow> \<not> progmode_event ev \<Longrightarrow> steady w w'"
  by (auto simp: steady_def call_def split: prod.splits)

lemma steady_updi_erase: "updi_erase env w = (r, w') \<Longrightarrow> steady w w'"
  unfolding updi_erase_def steady_def call_def
  by (auto split: prod.splits if_splits)

lemma steady_updi_fuse: "updi_fuse env str w = (r, w') \<Longrightarrow> steady w w'"
  unfolding updi_fuse_def steady_def call_def
  by (auto split: prod.splits if_splits option.splits)

lemma steady_load_hex: "load_hex env file flash w = (r, w') \<Longrightarrow> steady w w'"
  unfolding load_hex_def Let_def steady_def call_def record_ev_def
  by (auto split: prod.splits if_splits)

lemma steady_verify_hex: "verify_hex env dhex w = (r, w') \<Longrightarrow> steady w w'"
  unfolding verify_hex_def Let_def steady_def call_def record_ev_def
  by (auto split: prod.splits if_splits)

lemma steady_updi_save: "updi_save env file w = (r, w') \<Longrightarrow> steady w w'"
  unfolding updi_save_def Let_def steady_def call_def record_ev_def
  by (auto split: prod.splits if_splits)

lemma steady_updi_read: "updi_read env cmd w = (r, w') \<Longrightarrow> steady w w'"
  unfolding updi_read_def steady_def call_def record_ev_def
  by (auto split: prod.splits if_splits option.splits)

lemma steady_free: "steady x (record_ev (Free b) x)"
  by (simp add: steady_def record_ev_def)

lemma steady_flash_verify:
  assumes "(case verify_hex env dhex w of (result, w6) \<Rightarrow>
              if result \<noteq> 0 then (- 3, unload_hex (Some dhex) w6)
              else (0, unload_hex (Some dhex) w6)) = (r, w')"
  shows "steady w w'"
proof -
  obtain rv w6 where v: "verify_hex env dhex w = (rv, w6)"
    by (cases "verify_hex env dhex w") auto
  then have "steady w w6" by (rule steady_verify_hex)
  moreover from assms v have "w' = record_ev (Free Dhex) w6"
    by (auto simp: unload_hex_def split: if_splits)
  ultimately show ?thesis using steady_free steady_trans by blast
qed

lemma steady_updi_flash: "updi_flash env file prog w = (r, w') \<Longrightarrow> steady w w'"
proof -
  assume run: "updi_flash env file prog w = (r, w')"
  obtain rg flash w1 where g: "call Get_flash_info (nvm_get_flash_info env) w = ((rg, flash), w1)"
    by (cases "call Get_flash_info (nvm_get_flash_info env) w") auto
  then have q1: "steady w w1"
    by (rule steady_call) simp
  show ?thesis
  proof (cases "rg = 0")
    case False
    with run g have "w' = w1" by (simp add: updi_flash_def unload_hex_def)
    with q1 show ?thesis by simp
  next
    case True
    obtain rl w2 where l: "load_hex env file flash w1 = (rl, w2)"
      by (cases "load_hex env file flash w1") auto
    then have q2: "steady w1 w2" by (rule steady_load_hex)
    from q1 q2 have q12: "steady w w2" by (rule steady_trans)
    show ?thesis
    proof (cases rl)
      case (Inl e)
      with run g True l have "w' = w2" by (simp add: updi_flash_def)
      with q12 show ?thesis by simp
    next
      case (Inr dhex)
      show ?thesis
      proof (cases prog)
        case False
        with run g True l Inr have "steady w2 w'"
          by (intro steady_flash_verify [where env = env and dhex = dhex and w = w2]) (simp add: updi_flash_def)
        with q12 show ?thesis by (rule steady_trans)
      next
        case prog: True
        obtain r1 w3 where e: "call Chip_erase (nvm_chip_erase env) w2 = (r1, w3)"
          by (cases "call Chip_erase (nvm_chip_erase env) w2") auto
        then have "steady w2 w3" by (rule steady_call) simp
        with q12 have q3: "steady w w3" by (rule steady_trans)
        show ?thesis
        proof (cases "r1 = 0")
          case False
          with run g True l Inr prog e have "w' = record_ev (Free Dhex) w3"
            by (simp add: updi_flash_def unload_hex_def)
          with q3 steady_free steady_trans show ?thesis by blast
        next
          case r10: True
          let ?bytes = "take (unat (len dhex)) (data dhex)"
          obtain r2 w4 where wr: "call (Write_flash (addr_from dhex) ?bytes)
                              (nvm_write_flash env (addr_from dhex) ?bytes) w3 = (r2, w4)"
            by (cases "call (Write_flash (addr_from dhex) ?bytes)
                              (nvm_write_flash env (addr_from dhex) ?bytes) w3") auto
          then have "steady w3 w4" by (rule steady_call) simp
          with q3 have q4: "steady w w4" by (rule steady_trans)
          show ?thesis
          proof (cases "r2 = 0")
            case False
            with run g True l Inr prog e r10 wr have "w' = record_ev (Free Dhex) w4"
              by (simp add: updi_flash_def unload_hex_def Let_def)
            with q4 steady_free steady_trans show ?thesis by blast
          next
            case r20: True
            with run g True l Inr prog e r10 wr have "steady w4 w'"
              by (intro steady_flash_verify [where env = env and dhex = dhex and w = w4])
                 (simp add: updi_flash_def Let_def)
            with q4 show ?thesis by (rule steady_trans)
          qed
        qed
      qed
    qed
  qed
qed

lemma steady_write_loop:
  "write_loop env ts i address j buf dirty result w = (st, w') \<Longrightarrow> steady w w'"
proof (induction ts arbitrary: i address j buf dirty result w)
  case Nil
  then show ?case by (simp add: steady_refl)
next
  case (Cons t ts)
  show ?case
  proof (cases "i \<noteq> 0 \<and> result = 0 \<and> (i - 1) mod UPDI_WRITE_STROKEN_LEN + 1 = UPDI_WRITE_STROKEN_LEN")
    case False
    with Cons.prems show ?thesis
      by (auto simp: Let_def split: if_splits intro: Cons.IH)
  next
    case True
    let ?j = "(i - 1) mod UPDI_WRITE_STROKEN_LEN"
    let ?buf = "buf[nat ?j := byte_of t]"
    obtain r w1 where c: "call (Write_mem (address + i - ?j - 1) (take (nat (?j + 1)) ?buf))
                         (nvm_write_mem env (address + i - ?j - 1) (take (nat (?j + 1)) ?buf)) w = (r, w1)"
      by (metis surj_pair)
    then have "steady w w1" by (rule steady_call) simp
    moreover from Cons.prems True c
    have "write_loop env ts (i + 1) address ?j ?buf False (if r \<noteq> 0 then - 3 else r) w1 = (st, w')"
      by (simp add: Let_def)
    then have "steady w1 w'" by (rule Cons.IH)
    ultimately show ?thesis by (rule steady_trans)
  qed
qed

lemma steady_readback: "readback env address i j w = (r, w') \<Longrightarrow> steady w w'"
proof (induction env address i j w rule: readback.induct)
  case (1 env address i j w)
  show ?case
  proof (cases "j < i - 1")
    case False
    with "1.prems" show ?thesis
      by (subst (asm) readback.simps) (simp add: steady_refl)
  next
    case True
    define ln where "ln = (if i - j - 1 > UPDI_WRITE_STROKEN_LEN then UPDI_WRITE_STROKEN_LEN else i - j - 1)"
    obtain rr rd w1 where c: "call (Read_mem (address + j) ln) (nvm_read_mem env (address + j) ln) w
                                = ((rr, rd), w1)"
      by (metis surj_pair)
    then have s1: "steady w w1" by (rule steady_call) simp
    show ?thesis
    proof (cases "rr = 0")
      case False
      with "1.prems" True c have "w' = w1"
        by (subst (asm) readback.simps) (simp add: Let_def ln_def)
      with s1 show ?thesis by simp
    next
      case rr0: True
      from "1.prems" True c rr0
      have "readback env address i (j + UPDI_WRITE_STROKEN_LEN) w1 = (r, w')"
        by (subst (asm) readback.simps) (simp add: Let_def ln_def)
      then have "steady w1 w'"
        using "1.IH" [OF True refl refl _ refl] c rr0 by (simp add: ln_def)
      with s1 show ?thesis by (rule steady_trans)
    qed
  qed
qed

lemma steady_updi_write: "updi_write env cmd w = (r, w') \<Longrightarrow> steady w w'"
proof -
  assume run: "updi_write env cmd w = (r, w')"
  show ?thesis
  proof (cases "str_split env cmd CHR '';''")
    case None
    with run show ?thesis by (simp add: updi_write_def steady_refl)
  next
    case (Some tokens)
    obtain i address j buf dirty result w1 where
      l: "write_loop env tokens 0 0 0 (replicate (nat UPDI_WRITE_STROKEN_LEN) 0) False 0 w =
            ((i, address, j, buf, dirty, result), w1)"
      by (cases "write_loop env tokens 0 0 0 (replicate (nat UPDI_WRITE_STROKEN_LEN) 0) False 0 w")
         auto
    then have s1: "steady w w1" by (rule steady_write_loop)
    obtain r2 w3 where f: "write_left env i address j buf dirty result w1 = (r2, w3)"
      by (cases "write_left env i address j buf dirty result w1") auto
    then have s2: "steady w1 w3"
      unfolding write_left_def steady_def call_def
      by (auto split: prod.splits if_splits)
    show ?thesis
    proof (cases "r2 = 0")
      case False
      with run Some l f have "w' = w3" by (simp add: updi_write_def)
      with s1 s2 show ?thesis by (blast intro: steady_trans)
    next
      case True
      with run Some l f have "readback env address i 0 w3 = (r, w')"
        by (simp add: updi_write_def)
      then have "steady w3 w'" by (rule steady_readback)
      with s1 s2 show ?thesis by (blast intro: steady_trans)
    qed
  qed
qed

lemma fail_with_snd: "fail_with c rw = (r, w') \<Longrightarrow> \<exists>r0. rw = (r0, w')"
  by (cases rw) (simp add: fail_with_def)

lemma and_then_cases:
  assumes "and_then rw f = (r, w')"
  obtains (stop) "rw = (r, w')" "r \<noteq> 0"
        | (go) w1 where "rw = (0, w1)" "f w1 = (r, w')"
  using assms by (cases rw) (auto simp: and_then_def split: if_splits)

lemma steady_main_info: "main_info env w = (r, w') \<Longrightarrow> steady w w'"
  unfolding main_info_def by (auto dest!: fail_with_snd intro: steady_call)

lemma steady_main_erase: "main_erase env flg w = (r, w') \<Longrightarrow> steady w w'"
  unfolding main_erase_def
  by (auto dest!: fail_with_snd intro: steady_updi_erase steady_refl split: if_splits)

lemma steady_main_fuses: "main_fuses env opts w = (r, w') \<Longrightarrow> steady w w'"
  unfolding main_fuses_def
  by (auto dest!: fail_with_snd intro: steady_updi_fuse steady_refl split: option.splits)

lemma steady_main_read: "main_read env opts w = (r, w') \<Longrightarrow> steady w w'"
  unfolding main_read_def
  by (auto dest!: fail_with_snd intro: steady_updi_read steady_refl split: option.splits)

lemma steady_main_write: "main_write env opts w = (r, w') \<Longrightarrow> steady w w'"
  unfolding main_write_def
  by (auto dest!: fail_with_snd intro: steady_updi_write steady_refl split: option.splits)

lemma steady_main_file: "main_file env opts flg w = (r, w') \<Longrightarrow> steady w w'"
proof -
  assume run: "main_file env opts flg w = (r, w')"
  show ?thesis
  proof (cases "file_name opts")
    case None
    with run show ?thesis by (simp add: main_file_def steady_refl)
  next
    case (Some f)
    with run have "and_then
           (if TEST_BIT flg FLAG_PROG \<or> TEST_BIT flg FLAG_CHECK
            then fail_with (- 9) (updi_flash env f (TEST_BIT flg FLAG_PROG) w) else (0, w))
           (\<lambda>w1. if TEST_BIT flg FLAG_SAVE then fail_with (- 10) (updi_save env f w1)
                 else (0, w1)) = (r, w')"
      by (simp add: main_file_def)
    then show ?thesis
    proof (cases rule: and_then_cases)
      case stop
      then show ?thesis
        by (auto dest!: fail_with_snd intro: steady_updi_flash steady_refl split: if_splits)
    next
      case (go w1)
      from go(1) have "steady w w1"
        by (auto dest!: fail_with_snd intro: steady_updi_flash steady_refl split: if_splits)
      moreover from go(2) have "steady w1 w'"
        by (auto dest!: fail_with_snd intro: steady_updi_save steady_refl split: if_splits)
      ultimately show ?thesis by (rule steady_trans)
    qed
  qed
qed

lemma steady_and_then:
  assumes "and_then rw f = (r, w')"
    and "\<And>r0 w0. rw = (r0, w0) \<Longrightarrow> steady w w0"
    and "\<And>w1 r1 w2. f w1 = (r1, w2) \<Longrightarrow> steady w1 w2"
  shows "steady w w'"
  using assms(1)
proof (cases rule: and_then_cases)
  case stop
  from stop(1) show ?thesis by (rule assms(2))
next
  case (go w1)
  from go(1) have "steady w w1" by (rule assms(2))
  moreover from go(2) have "steady w1 w'" by (rule assms(3))
  ultimately show ?thesis by (rule steady_trans)
qed

lemma steady_main_rest:
  assumes "and_then (main_erase env flg w) (\<lambda>w.
           and_then (main_fuses env opts w) (\<lambda>w.
           and_then (main_file env opts flg w) (\<lambda>w.
           and_then (main_read env opts w) (\<lambda>w.
           main_write env opts w)))) = (r, w')"
  shows "steady w w'"
proof -
  have s4: "steady w r'" if "and_then (main_read env opts w) (\<lambda>w. main_write env opts w) = (r, r')"
    for w r and r' :: "'a world"
    using that by (rule steady_and_then) (erule steady_main_read, erule steady_main_write)
  have s3: "steady w r'" if "and_then (main_file env opts flg w) (\<lambda>w.
           and_then (main_read env opts w) (\<lambda>w. main_write env opts w)) = (r, r')"
    for w r and r' :: "'a world"
    using that by (rule steady_and_then) (erule steady_main_file, erule s4)
  have s2: "steady w r'" if "and_then (main_fuses env opts w) (\<lambda>w.
           and_then (main_file env opts flg w) (\<lambda>w.
           and_then (main_read env opts w) (\<lambda>w. main_write env opts w))) = (r, r')"
    for w r and r' :: "'a world"
    using that by (rule steady_and_then) (erule steady_main_fuses, erule s3)
  from assms show ?thesis
    by (rule steady_and_then) (erule steady_main_erase, erule s2)
qed

lemma steady_events:
  "\<forall>e \<in> set evs. \<not> progmode_event e \<Longrightarrow> Enter_progmode \<notin> set evs \<and> Unlock_device \<notin> set evs"
  by auto

lemma once_steady: "steady w w' \<Longrightarrow> once u w w'"
  unfolding steady_def once_def progmode_once_def
  by (auto dest!: steady_events)

lemma steady_once: "steady w w1 \<Longrightarrow> once u w1 w2 \<Longrightarrow> once u w w2"
  unfolding steady_def once_def progmode_once_def
  by (auto dest!: steady_events)

lemma once_then_steady: "once u w w1 \<Longrightarrow> steady w1 w2 \<Longrightarrow> once u w w2"
  unfolding steady_def once_def progmode_once_def
  by (auto dest!: steady_events)

lemma main_progmode_run:
  assumes "nvm_enter_progmode env (dev w) = (r1, s1)"
    and "nvm_unlock_device env s1 = (r2, s2)"
    and "nvm_get_device_info env (if r1 \<noteq> 0 then s2 else s1) = (r3, s3)"
  shows "main_progmode env True w =
     (if r1 = 0 then
        (if r3 \<noteq> 0 then - 6 else 0,
         \<lparr>dev = s3, trace = trace w @ [Enter_progmode, Get_device_info]\<rparr>)
      else if r2 \<noteq> 0 then
        (- 5, \<lparr>dev = s2, trace = trace w @ [Enter_progmode, Unlock_device]\<rparr>)
      else
        (if r3 \<noteq> 0 then - 6 else 0,
         \<lparr>dev = s3, trace = trace w @ [Enter_progmode, Unlock_device, Get_device_info]\<rparr>))"
  using assms
  by (cases "r1 = 0") (simp_all add: main_progmode_def and_then_def fail_with_def call_def)

lemma main_progmode_once: "main_progmode env unlock w = (r, w') \<Longrightarrow> once unlock w w'"
proof (cases unlock)
  case False
  assume "main_progmode env unlock w = (r, w')"
  with False have "w' = w" by (simp add: main_progmode_def)
  then show ?thesis by (simp add: once_steady steady_refl)
next
  case True
  assume run: "main_progmode env unlock w = (r, w')"
  obtain r1 s1 where a: "nvm_enter_progmode env (dev w) = (r1, s1)"
    by (cases "nvm_enter_progmode env (dev w)") auto
  obtain r2 s2 where b: "nvm_unlock_device env s1 = (r2, s2)"
    by (cases "nvm_unlock_device env s1") auto
  obtain r3 s3 where c: "nvm_get_device_info env (if r1 \<noteq> 0 then s2 else s1) = (r3, s3)"
    by (cases "nvm_get_device_info env (if r1 \<noteq> 0 then s2 else s1)") auto
  from run True have "main_progmode env True w = (r, w')" by simp
  then show ?thesis
    unfolding main_progmode_run [OF a b c] once_def progmode_once_def
    using True by (auto split: if_splits)
qed

lemma main_once:
  assumes run: "main env opts w = (r, w')"
  shows "once (main_unlock (main_flag opts)) w w'"
proof (cases "dev_name opts")
  case None
  with run have "w' = w" by (simp add: main_def)
  then show ?thesis by (simp add: once_steady steady_refl)
next
  case (Some dname)
  note d = this
  show ?thesis
  proof (cases "comport opts")
    case None
    with run d have "w' = w" by (simp add: main_def)
    then show ?thesis by (simp add: once_steady steady_refl)
  next
    case (Some port)
    note p = this
    show ?thesis
    proof (cases "get_chip_info env dname")
      case False
      with run d p have "w' = w" by (simp add: main_def Let_def)
      then show ?thesis by (simp add: once_steady steady_refl)
    next
      case True
      let ?u = "main_unlock (main_flag opts)"
      let ?flg = "main_flag opts"
      obtain ok w1 where i: "call Nvm_init (updi_nvm_init env port (baudrate opts)) w = (ok, w1)"
        by (cases "call Nvm_init (updi_nvm_init env port (baudrate opts)) w") auto
      then have s1: "steady w w1" by (rule steady_call) simp
      let ?body = "if \<not> ok then (- 3, w1)
            else
              and_then (main_info env w1) (\<lambda>w.
              and_then (main_progmode env ?u w) (\<lambda>w.
              and_then (main_erase env ?flg w) (\<lambda>w.
              and_then (main_fuses env opts w) (\<lambda>w.
              and_then (main_file env opts ?flg w) (\<lambda>w.
              and_then (main_read env opts w) (\<lambda>w.
              main_write env opts w))))))"
      obtain rb w2 where b: "?body = (rb, w2)"
        by (cases ?body) auto
      obtain x3 w3 where l: "call Leave_progmode (nvm_leave_progmode env) w2 = (x3, w3)"
        by (cases "call Leave_progmode (nvm_leave_progmode env) w2") auto
      obtain x4 w4 where e: "call Nvm_deinit (updi_nvm_deinit env) w3 = (x4, w4)"
        by (cases "call Nvm_deinit (updi_nvm_deinit env) w3") auto
      from l have s3: "steady w2 w3" by (rule steady_call) simp
      from e have s4: "steady w3 w4" by (rule steady_call) simp
      from run d p True i b l e have w': "w' = w4"
        by (simp add: main_def Let_def)
      have o2: "once ?u w1 w2"
      proof (cases ok)
        case False
        with b have "w2 = w1" by simp
        then show ?thesis by (simp add: once_steady steady_refl)
      next
        case True
        with b have "and_then (main_info env w1) (\<lambda>w.
              and_then (main_progmode env ?u w) (\<lambda>w.
              and_then (main_erase env ?flg w) (\<lambda>w.
              and_then (main_fuses env opts w) (\<lambda>w.
              and_then (main_file env opts ?flg w) (\<lambda>w.
              and_then (main_read env opts w) (\<lambda>w.
              main_write env opts w)))))) = (rb, w2)"
          by simp
        then show ?thesis
        proof (cases rule: and_then_cases)
          case stop
          from stop(1) have "steady w1 w2" by (rule steady_main_info)
          then show ?thesis by (rule once_steady)
        next
          case (go wa)
          from go(1) have sa: "steady w1 wa" by (rule steady_main_info)
          from go(2) have "once ?u wa w2"
          proof (cases rule: and_then_cases)
            case stop
            from stop(1) show ?thesis by (rule main_progmode_once)
          next
            case (go wb)
            from go(1) have "once ?u wa wb" by (rule main_progmode_once)
            moreover from go(2) have "steady wb w2" by (rule steady_main_rest)
            ultimately show ?thesis by (rule once_then_steady)
          qed
          with sa show ?thesis by (rule steady_once)
        qed
      qed
      from s3 s4 have "steady w2 w4" by (rule steady_trans)
      with o2 have "once ?u w1 w4" by (rule once_then_steady)
      with s1 have "once ?u w w4" by (rule steady_once)
      with w' show ?thesis by simp
    qed
  qed
qed

lemma main_progmode_codes: "main_progmode env unlock w = (r, w') \<Longrightarrow> r = 0 \<or> r = - 5 \<or> r = - 6"
  unfolding main_progmode_def and_then_def fail_with_def
  by (auto split: if_splits prod.splits)

lemma main_progmode_fatal:
  assumes d: "dev_name opts = Some d"
    and p: "comport opts = Some p"
    and chip: "get_chip_info env d"
    and init: "updi_nvm_init env p (baudrate opts) (dev w) = (True, s0)"
    and info: "nvm_get_device_info env s0 = (0, s1)"
    and pm: "main_progmode env (main_unlock (main_flag opts))
               \<lparr>dev = s1, trace = trace w @ [Nvm_init, Get_device_info]\<rparr> = (c, w2)"
    and c: "c \<noteq> 0"
    and leave: "nvm_leave_progmode env (dev w2) = (x, s3)"
    and deinit: "updi_nvm_deinit env s3 = (y, s4)"
  shows "main env opts w = (c, \<lparr>dev = s4, trace = trace w2 @ [Leave_progmode, Nvm_deinit]\<rparr>)"
  using assms
  by (simp add: main_def Let_def call_def main_info_def fail_with_def and_then_def)

text \<open>
  C8. Let \<open>flg\<close> be the flag word after the default of lines 136 to 139.
  \<^item> In every run of \<^verbatim>\<open>main\<close>, program-mode entry is called at most once, and only
    when \<open>flg\<close> has the unlock, erase or program bit; the unlock with chip erase
    is called at most once, and only in a run that called the entry.
  \<^item> The program-mode step makes no call when none of the three bits is set.
    Otherwise it calls the entry; if that fails it calls the unlock once, and a
    failed unlock ends the step with \<open>-5\<close>; then it queries the device info
    again, and a failed query ends the step with \<open>-6\<close>.
  \<^item> A failed program-mode step is fatal: \<^verbatim>\<open>main\<close> returns its code, \<open>-5\<close> or \<open>-6\<close>,
    and only leaves program mode and releases the session behind it.
\<close>

theorem main_progmode_entry:
  "(\<forall>r w'. main env opts w = (r, w') \<longrightarrow>
      (\<exists>evs. trace w' = trace w @ evs
         \<and> count_list evs Enter_progmode \<le> 1
         \<and> count_list evs Unlock_device \<le> 1
         \<and> (Enter_progmode \<in> set evs \<longrightarrow>
               TEST_BIT (main_flag opts) FLAG_UNLOCK \<or> TEST_BIT (main_flag opts) FLAG_ERASE
               \<or> TEST_BIT (main_flag opts) FLAG_PROG)
         \<and> (Unlock_device \<in> set evs \<longrightarrow> Enter_progmode \<in> set evs)))
   \<and> main_progmode env False w = (0, w)
   \<and> (\<forall>r1 s1 r2 s2 r3 s3.
         nvm_enter_progmode env (dev w) = (r1, s1)
         \<and> nvm_unlock_device env s1 = (r2, s2)
         \<and> nvm_get_device_info env (if r1 \<noteq> 0 then s2 else s1) = (r3, s3)
       \<longrightarrow> main_progmode env True w =
           (if r1 = 0 then
              (if r3 \<noteq> 0 then - 6 else 0,
               \<lparr>dev = s3, trace = trace w @ [Enter_progmode, Get_device_info]\<rparr>)
            else if r2 \<noteq> 0 then
              (- 5, \<lparr>dev = s2, trace = trace w @ [Enter_progmode, Unlock_device]\<rparr>)
            else
              (if r3 \<noteq> 0 then - 6 else 0,
               \<lparr>dev = s3, trace = trace w @ [Enter_progmode, Unlock_device, Get_device_info]\<rparr>)))
   \<and> (\<forall>d p s0 s1 c w2 x s3 y s4.
         dev_name opts = Some d \<and> comport opts = Some p \<and> get_chip_info env d
         \<and> updi_nvm_init env p (baudrate opts) (dev w) = (True, s0)
         \<and> nvm_get_device_info env s0 = (0, s1)
         \<and> main_progmode env (main_unlock (main_flag opts))
               \<lparr>dev = s1, trace = trace w @ [Nvm_init, Get_device_info]\<rparr> = (c, w2)
         \<and> c \<noteq> 0
         \<and> nvm_leave_progmode env (dev w2) = (x, s3)
         \<and> updi_nvm_deinit env s3 = (y, s4)
       \<longrightarrow> (c = - 5 \<or> c = - 6)
           \<and> main env opts w = (c, \<lparr>dev = s4, trace = trace w2 @ [Leave_progmode, Nvm_deinit]\<rparr>))"
proof (intro conjI allI impI)
  fix r w' assume "main env opts w = (r, w')"
  then have "once (main_unlock (main_flag opts)) w w'" by (rule main_once)
  then show "\<exists>evs. trace w' = trace w @ evs
         \<and> count_list evs Enter_progmode \<le> 1
         \<and> count_list evs Unlock_device \<le> 1
         \<and> (Enter_progmode \<in> set evs \<longrightarrow>
               TEST_BIT (main_flag opts) FLAG_UNLOCK \<or> TEST_BIT (main_flag opts) FLAG_ERASE
               \<or> TEST_BIT (main_flag opts) FLAG_PROG)
         \<and> (Unlock_device \<in> set evs \<longrightarrow> Enter_progmode \<in> set evs)"
    unfolding once_def progmode_once_def main_unlock_def by blast
next
  show "main_progmode env False w = (0, w)"
    by (simp add: main_progmode_def)
next
  fix r1 s1 r2 s2 r3 s3
  assume "nvm_enter_progmode env (dev w) = (r1, s1)
         \<and> nvm_unlock_device env s1 = (r2, s2)
         \<and> nvm_get_device_info env (if r1 \<noteq> 0 then s2 else s1) = (r3, s3)"
  then have a: "nvm_enter_progmode env (dev w) = (r1, s1)"
    and b: "nvm_unlock_device env s1 = (r2, s2)"
    and c: "nvm_get_device_info env (if r1 \<noteq> 0 then s2 else s1) = (r3, s3)"
    by simp_all
  show "main_progmode env True w =
           (if r1 = 0 then
              (if r3 \<noteq> 0 then - 6 else 0,
               \<lparr>dev = s3, trace = trace w @ [Enter_progmode, Get_device_info]\<rparr>)
            else if r2 \<noteq> 0 then
              (- 5, \<lparr>dev = s2, trace = trace w @ [Enter_progmode, Unlock_device]\<rparr>)
            else
              (if r3 \<noteq> 0 then - 6 else 0,
               \<lparr>dev = s3, trace = trace w @ [Enter_progmode, Unlock_device, Get_device_info]\<rparr>))"
    by (rule main_progmode_run [OF a b c])
next
  fix d p s0 s1 c w2 x s3 y s4
  assume h: "dev_name opts = Some d \<and> comport opts = Some p \<and> get_chip_info env d
         \<and> updi_nvm_init env p (baudrate opts) (dev w) = (True, s0)
         \<and> nvm_get_device_info env s0 = (0, s1)
         \<and> main_progmode env (main_unlock (main_flag opts))
               \<lparr>dev = s1, trace = trace w @ [Nvm_init, Get_device_info]\<rparr> = (c, w2)
         \<and> c \<noteq> 0
         \<and> nvm_leave_progmode env (dev w2) = (x, s3)
         \<and> updi_nvm_deinit env s3 = (y, s4)"
  then show "c = - 5 \<or> c = - 6"
    using main_progmode_codes by blast
  from h show "main env opts w = (c, \<lparr>dev = s4, trace = trace w2 @ [Leave_progmode, Nvm_deinit]\<rparr>)"
    by (elim conjE) (rule main_progmode_fatal)
qed

text \<open>
  The theorem on a locked device that cannot be unlocked, with an erase
  request: one entry, one unlock, then the cleanup, and the result \<open>-5\<close>.
\<close>

theorem main_progmode_entry_witness:
  "main (locked (sim_env tiny_flash 0 0)) erase_opts world0 =
     (- 5, \<lparr>dev = (), trace = [Nvm_init, Get_device_info, Enter_progmode, Unlock_device,
                                Leave_progmode, Nvm_deinit]\<rparr>)"
proof -
  let ?E = "locked (sim_env tiny_flash 0 0)"
  let ?w1 = "\<lparr>dev = (), trace = trace world0 @ [Nvm_init, Get_device_info]\<rparr>"
  let ?w2 = "\<lparr>dev = (), trace = trace ?w1 @ [Enter_progmode, Unlock_device]\<rparr>"
  have u: "main_unlock (main_flag erase_opts) = True"
    by (simp add: main_unlock_def main_flag_def erase_opts_def TEST_BIT_def FLAG_ERASE_def)
  have e: "nvm_enter_progmode ?E (dev ?w1) = (1, ())
         \<and> nvm_unlock_device ?E () = (1, ())
         \<and> nvm_get_device_info ?E (if (1 :: int) \<noteq> 0 then () else ()) = (0, ())"
    by (simp add: locked_def sim_env_def)
  have pm: "main_progmode ?E True ?w1 = (- 5, ?w2)"
    using main_progmode_entry [of ?E erase_opts ?w1, THEN conjunct2, THEN conjunct2,
        THEN conjunct1, rule_format, OF e]
    by simp
  have h: "dev_name erase_opts = Some ''tiny817'' \<and> comport erase_opts = Some ''COM2''
         \<and> get_chip_info ?E ''tiny817''
         \<and> updi_nvm_init ?E ''COM2'' (baudrate erase_opts) (dev world0) = (True, ())
         \<and> nvm_get_device_info ?E () = (0, ())
         \<and> main_progmode ?E (main_unlock (main_flag erase_opts)) ?w1 = (- 5, ?w2)
         \<and> (- 5 :: int) \<noteq> 0
         \<and> nvm_leave_progmode ?E (dev ?w2) = (0, ())
         \<and> updi_nvm_deinit ?E () = ((), ())"
    unfolding u using pm by (simp add: erase_opts_def locked_def sim_env_def)
  from main_progmode_entry [of ?E erase_opts world0, THEN conjunct2, THEN conjunct2,
        THEN conjunct2, rule_format, OF h]
  show ?thesis
    by (simp add: world0_def)
qed

subsection \<open>A hex file without an action\<close>

lemma and_then_ret: "and_then rw (\<lambda>w. (0, w)) = rw"
  by (cases rw) (simp add: and_then_def)

lemma and_then_0: "and_then (0, w) f = f w"
  by (simp add: and_then_def)

lemma fail_with_0: "c \<noteq> 0 \<Longrightarrow> fail_with c rw = (0, w') \<Longrightarrow> rw = (0, w')"
  by (cases rw) (auto simp: fail_with_def split: if_splits)

lemma verify_hex_success:
  "verify_hex env dhex w = (0, w') \<Longrightarrow>
     trace w' = trace w @ [Malloc Rdata (unat (len dhex)),
                           Read_flash (addr_from dhex) (unat (len dhex)), Free Rdata]"
  unfolding verify_hex_def Let_def call_def record_ev_def
  by (auto split: prod.splits if_splits)

lemma updi_flash_prog_success:
  assumes run: "updi_flash env f True w = (0, w')"
  shows "\<exists>ld (dhex :: hex_data_t). trace w' = trace w @ [Get_flash_info] @ ld @
             [Chip_erase, Write_flash (addr_from dhex) (take (unat (len dhex)) (data dhex)),
              Malloc Rdata (unat (len dhex)), Read_flash (addr_from dhex) (unat (len dhex)),
              Free Rdata, Free Dhex]
           \<and> (\<forall>e \<in> set ld. \<not> device_mutation e)"
proof -
  obtain rg flash w1 where g: "call Get_flash_info (nvm_get_flash_info env) w = ((rg, flash), w1)"
    by (cases "call Get_flash_info (nvm_get_flash_info env) w") auto
  then have t1: "trace w1 = trace w @ [Get_flash_info]"
    by (auto simp: call_def split: prod.splits)
  from run g have rg: "rg = 0"
    by (auto simp: updi_flash_def split: if_splits)
  obtain rl w2 where l: "load_hex env f flash w1 = (rl, w2)"
    by (cases "load_hex env f flash w1") auto
  then have "quiet w1 w2" by (rule quiet_load_hex)
  then obtain ld where t2: "trace w2 = trace w1 @ ld" and ld: "\<forall>e \<in> set ld. \<not> device_mutation e"
    unfolding quiet_def by blast
  from run g rg l obtain dhex where rl: "rl = Inr dhex"
    by (cases rl) (auto simp: updi_flash_def)
  obtain r1 w3 where e: "call Chip_erase (nvm_chip_erase env) w2 = (r1, w3)"
    by (cases "call Chip_erase (nvm_chip_erase env) w2") auto
  then have t3: "trace w3 = trace w2 @ [Chip_erase]"
    by (auto simp: call_def split: prod.splits)
  from run g rg l rl e have r1: "r1 = 0"
    by (auto simp: updi_flash_def split: if_splits)
  let ?bytes = "take (unat (len dhex)) (data dhex)"
  obtain r2 w4 where wr: "call (Write_flash (addr_from dhex) ?bytes)
                              (nvm_write_flash env (addr_from dhex) ?bytes) w3 = (r2, w4)"
    by (cases "call (Write_flash (addr_from dhex) ?bytes)
                              (nvm_write_flash env (addr_from dhex) ?bytes) w3") auto
  then have t4: "trace w4 = trace w3 @ [Write_flash (addr_from dhex) ?bytes]"
    by (auto simp: call_def split: prod.splits)
  from run g rg l rl e r1 wr have r2: "r2 = 0"
    by (auto simp: updi_flash_def Let_def split: if_splits)
  obtain rv w6 where v: "verify_hex env dhex w4 = (rv, w6)"
    by (cases "verify_hex env dhex w4") auto
  from run g rg l rl e r1 wr r2 v have rv: "rv = 0" and w': "w' = record_ev (Free Dhex) w6"
    by (auto simp: updi_flash_def Let_def unload_hex_def split: if_splits)
  from v rv have t6: "trace w6 = trace w4 @ [Malloc Rdata (unat (len dhex)),
                           Read_flash (addr_from dhex) (unat (len dhex)), Free Rdata]"
    by (intro verify_hex_success) simp
  from w' have "trace w' = trace w6 @ [Free Dhex]"
    by (simp add: record_ev_def)
  with t1 t2 t3 t4 t6 ld
  have "trace w' = trace w @ [Get_flash_info] @ ld @
             [Chip_erase, Write_flash (addr_from dhex) (take (unat (len dhex)) (data dhex)),
              Malloc Rdata (unat (len dhex)), Read_flash (addr_from dhex) (unat (len dhex)),
              Free Rdata, Free Dhex]
           \<and> (\<forall>e \<in> set ld. \<not> device_mutation e)"
    by simp
  then show ?thesis by blast
qed

lemma main_progmode_success:
  assumes "main_progmode env True w = (0, w')"
  shows "\<exists>u. trace w' = trace w @ [Enter_progmode] @ u @ [Get_device_info]
             \<and> (u = [] \<or> u = [Unlock_device])"
proof -
  obtain r1 s1 where a: "nvm_enter_progmode env (dev w) = (r1, s1)"
    by (cases "nvm_enter_progmode env (dev w)") auto
  obtain r2 s2 where b: "nvm_unlock_device env s1 = (r2, s2)"
    by (cases "nvm_unlock_device env s1") auto
  obtain r3 s3 where c: "nvm_get_device_info env (if r1 \<noteq> 0 then s2 else s1) = (r3, s3)"
    by (cases "nvm_get_device_info env (if r1 \<noteq> 0 then s2 else s1)") auto
  from assms show ?thesis
    unfolding main_progmode_run [OF a b c]
    by (auto split: if_splits)
qed

lemma file_only_flag:
  assumes "file_name opts = Some f" and "flag opts = 0"
  shows "main_flag opts = 4"
  using assms by (simp add: main_flag_def SET_BIT_def FLAG_PROG_def)

lemma flag_prog_bits:
  "TEST_BIT 4 FLAG_PROG" "\<not> TEST_BIT 4 FLAG_UNLOCK" "\<not> TEST_BIT 4 FLAG_ERASE"
  "\<not> TEST_BIT 4 FLAG_CHECK" "\<not> TEST_BIT 4 FLAG_SAVE" "main_unlock 4"
  by (simp_all add: main_unlock_def TEST_BIT_def FLAG_PROG_def
        FLAG_UNLOCK_def FLAG_ERASE_def FLAG_CHECK_def FLAG_SAVE_def)

lemma main_file_only_success:
  assumes f: "file_name opts = Some f" and fl: "flag opts = 0"
    and d: "dev_name opts = Some d" and p: "comport opts = Some p"
    and none: "fuses opts = None" "read_cmd opts = None" "write_cmd opts = None"
    and run: "main env opts w = (0, w')"
  shows "\<exists>u ld (dhex :: hex_data_t).
           trace w' = trace w @ [Nvm_init, Get_device_info, Enter_progmode] @ u
             @ [Get_device_info, Get_flash_info] @ ld
             @ [Chip_erase, Write_flash (addr_from dhex) (take (unat (len dhex)) (data dhex)),
                Malloc Rdata (unat (len dhex)), Read_flash (addr_from dhex) (unat (len dhex)),
                Free Rdata, Free Dhex, Leave_progmode, Nvm_deinit]
           \<and> (u = [] \<or> u = [Unlock_device])
           \<and> (\<forall>e \<in> set ld. \<not> device_mutation e)"
proof -
  note fo = file_only_flag [OF f fl]
  obtain ok w1 where i: "call Nvm_init (updi_nvm_init env p (baudrate opts)) w = (ok, w1)"
    by (cases "call Nvm_init (updi_nvm_init env p (baudrate opts)) w") auto
  then have t1: "trace w1 = trace w @ [Nvm_init]"
    by (auto simp: call_def split: prod.splits)
  let ?body = "and_then (main_info env w1) (\<lambda>w.
               and_then (main_progmode env True w) (\<lambda>w.
               fail_with (- 9) (updi_flash env f True w)))"
  obtain rb w2 where b: "?body = (rb, w2)"
    by (cases ?body) auto
  have chip: "get_chip_info env d"
  proof (rule ccontr)
    assume "\<not> get_chip_info env d"
    with run d p show False by (simp add: main_def Let_def)
  qed
  have tail: "and_then (main_erase env 4 x) (\<lambda>w.
              and_then (main_fuses env opts w) (\<lambda>w.
              and_then (main_file env opts 4 w) (\<lambda>w.
              and_then (main_read env opts w) (\<lambda>w.
              main_write env opts w)))) = fail_with (- 9) (updi_flash env f True x)" for x
    using f none
    by (simp add: main_erase_def main_fuses_def main_file_def main_read_def main_write_def
          flag_prog_bits and_then_0 and_then_ret)
  have m0: "main env opts w =
      (case (if \<not> ok then (- 3, w1) else ?body) of (result, w2) \<Rightarrow>
       case call Leave_progmode (nvm_leave_progmode env) w2 of (x, w3) \<Rightarrow>
       case call Nvm_deinit (updi_nvm_deinit env) w3 of (x, xa) \<Rightarrow> (result, xa))"
    unfolding main_def Let_def fo tail d p option.case
    by (simp only: chip flag_prog_bits simp_thms if_False if_True i prod.case)
  have ok: "ok"
  proof (rule ccontr)
    assume "\<not> ok"
    with m0 run show False by (simp split: prod.splits)
  qed
  obtain x3 w3 where l: "call Leave_progmode (nvm_leave_progmode env) w2 = (x3, w3)"
    by (cases "call Leave_progmode (nvm_leave_progmode env) w2") auto
  obtain x4 w4 where e: "call Nvm_deinit (updi_nvm_deinit env) w3 = (x4, w4)"
    by (cases "call Nvm_deinit (updi_nvm_deinit env) w3") auto
  from l e have t4: "trace w4 = trace w2 @ [Leave_progmode, Nvm_deinit]"
    by (auto simp: call_def split: prod.splits)
  from m0 ok b l e have m: "main env opts w = (rb, w4)"
    by simp
  with run have rb: "rb = 0" and w': "w' = w4" by simp_all
  from b rb have body: "?body = (0, w2)" by simp
  from body obtain wa where ia: "main_info env w1 = (0, wa)"
    and rest: "and_then (main_progmode env True wa) (\<lambda>w.
                 fail_with (- 9) (updi_flash env f True w)) = (0, w2)"
    by (cases rule: and_then_cases) auto
  from ia have ta: "trace wa = trace w1 @ [Get_device_info]"
    by (auto simp: main_info_def fail_with_def call_def split: prod.splits)
  from rest obtain wb where pb: "main_progmode env True wa = (0, wb)"
    and fw: "fail_with (- 9) (updi_flash env f True wb) = (0, w2)"
    by (cases rule: and_then_cases) auto
  from main_progmode_success [OF pb]
  obtain u where tb: "trace wb = trace wa @ [Enter_progmode] @ u @ [Get_device_info]"
    and u: "u = [] \<or> u = [Unlock_device]"
    by blast
  have "updi_flash env f True wb = (0, w2)"
    by (rule fail_with_0 [OF _ fw]) simp
  from updi_flash_prog_success [OF this]
  obtain ld and dhex :: hex_data_t where
    t2: "trace w2 = trace wb @ [Get_flash_info] @ ld @
             [Chip_erase, Write_flash (addr_from dhex) (take (unat (len dhex)) (data dhex)),
              Malloc Rdata (unat (len dhex)), Read_flash (addr_from dhex) (unat (len dhex)),
              Free Rdata, Free Dhex]"
    and ld: "\<forall>e \<in> set ld. \<not> device_mutation e"
    by blast
  from t1 ta tb t2 t4 w' u ld
  have "trace w' = trace w @ [Nvm_init, Get_device_info, Enter_progmode] @ u
             @ [Get_device_info, Get_flash_info] @ ld
             @ [Chip_erase, Write_flash (addr_from dhex) (take (unat (len dhex)) (data dhex)),
                Malloc Rdata (unat (len dhex)), Read_flash (addr_from dhex) (unat (len dhex)),
                Free Rdata, Free Dhex, Leave_progmode, Nvm_deinit]
           \<and> (u = [] \<or> u = [Unlock_device])
           \<and> (\<forall>e \<in> set ld. \<not> device_mutation e)"
    by simp
  then show ?thesis by blast
qed

lemma main_flag_irrelevant:
  assumes "main_flag opts = main_flag opts'"
    and "opts' = opts\<lparr>flag := v\<rparr>"
  shows "main env opts w = main env opts' w"
proof -
  have sel: "dev_name opts' = dev_name opts" "comport opts' = comport opts"
    "baudrate opts' = baudrate opts"
    by (simp_all add: assms(2))
  have st: "main_fuses env opts' = main_fuses env opts"
    "main_file env opts' = main_file env opts"
    "main_read env opts' = main_read env opts"
    "main_write env opts' = main_write env opts"
    by (simp_all add: fun_eq_iff main_fuses_def main_file_def main_read_def main_write_def
          assms(2))
  show ?thesis
    unfolding main_def sel st assms(1) by (rule refl)
qed

text \<open>
  C10. When a hex file is given and the flag word is 0 (none of unlock, erase,
  program, check, save), \<^verbatim>\<open>main\<close> sets the program bit: the flag word it works with
  is \<^verbatim>\<open>1 << FLAG_PROG\<close>, program mode is entered, and the run is the run of the same
  options with the program bit given. With no fuse, read or write request
  besides, a run that returns 0 has made exactly these calls: session start and
  device info, the program-mode entry (with the unlock behind it if the entry
  failed), device info again, then the flash geometry and the loading of the
  hex file, the chip erase, one write of the whole image, its verification by
  one read of the same range, and the cleanup.
\<close>

theorem main_file_only:
  assumes "file_name opts = Some f" and "flag opts = 0"
  shows "main_flag opts = SET_BIT 0 FLAG_PROG
    \<and> TEST_BIT (main_flag opts) FLAG_PROG
    \<and> main_unlock (main_flag opts)
    \<and> main env opts w = main env (opts\<lparr>flag := SET_BIT 0 FLAG_PROG\<rparr>) w
    \<and> (\<forall>d p w'. dev_name opts = Some d \<and> comport opts = Some p \<and> fuses opts = None
           \<and> read_cmd opts = None \<and> write_cmd opts = None \<and> main env opts w = (0, w')
         \<longrightarrow> (\<exists>u ld (dhex :: hex_data_t).
               trace w' = trace w @ [Nvm_init, Get_device_info, Enter_progmode] @ u
                 @ [Get_device_info, Get_flash_info] @ ld
                 @ [Chip_erase,
                    Write_flash (addr_from dhex) (take (unat (len dhex)) (data dhex)),
                    Malloc Rdata (unat (len dhex)),
                    Read_flash (addr_from dhex) (unat (len dhex)),
                    Free Rdata, Free Dhex, Leave_progmode, Nvm_deinit]
               \<and> (u = [] \<or> u = [Unlock_device])
               \<and> (\<forall>e \<in> set ld. \<not> device_mutation e)))"
proof (intro conjI allI impI)
  have four: "SET_BIT 0 FLAG_PROG = 4"
    by (simp add: SET_BIT_def FLAG_PROG_def)
  from assms show mf: "main_flag opts = SET_BIT 0 FLAG_PROG"
    by (simp add: main_flag_def)
  show "TEST_BIT (main_flag opts) FLAG_PROG"
    unfolding mf four by (rule flag_prog_bits)
  show "main_unlock (main_flag opts)"
    unfolding mf four by (rule flag_prog_bits)
  have "main_flag (opts\<lparr>flag := SET_BIT 0 FLAG_PROG\<rparr>) = SET_BIT 0 FLAG_PROG"
    unfolding four by (simp add: main_flag_def)
  with mf have "main_flag opts = main_flag (opts\<lparr>flag := SET_BIT 0 FLAG_PROG\<rparr>)"
    by simp
  then show "main env opts w = main env (opts\<lparr>flag := SET_BIT 0 FLAG_PROG\<rparr>) w"
    by (rule main_flag_irrelevant) simp
next
  fix d p w'
  assume h: "dev_name opts = Some d \<and> comport opts = Some p \<and> fuses opts = None
           \<and> read_cmd opts = None \<and> write_cmd opts = None \<and> main env opts w = (0, w')"
  then have d: "dev_name opts = Some d" and p: "comport opts = Some p"
    and n1: "fuses opts = None" and n2: "read_cmd opts = None" and n3: "write_cmd opts = None"
    and run: "main env opts w = (0, w')"
    by simp_all
  show "\<exists>u ld (dhex :: hex_data_t).
               trace w' = trace w @ [Nvm_init, Get_device_info, Enter_progmode] @ u
                 @ [Get_device_info, Get_flash_info] @ ld
                 @ [Chip_erase,
                    Write_flash (addr_from dhex) (take (unat (len dhex)) (data dhex)),
                    Malloc Rdata (unat (len dhex)),
                    Read_flash (addr_from dhex) (unat (len dhex)),
                    Free Rdata, Free Dhex, Leave_progmode, Nvm_deinit]
               \<and> (u = [] \<or> u = [Unlock_device])
               \<and> (\<forall>e \<in> set ld. \<not> device_mutation e)"
    by (rule main_file_only_success [OF assms d p n1 n2 n3 run])
qed

text \<open>
  The theorem on the blank device with a hex file of one page: the run with
  only the file given is the full cycle, and returns 0.
\<close>

lemma main_prog_one_page:
  "main (sim_env tiny_flash 0 0x3f) (file_opts\<lparr>flag := 4\<rparr>) world0 =
     (0, \<lparr>dev = (), trace =
        [Nvm_init, Get_device_info, Enter_progmode, Get_device_info, Get_flash_info,
         Get_hex_info ''fw.hex'', Malloc Dhex 104, Get_hex_info ''fw.hex'', Chip_erase,
         Write_flash 0x8000 (replicate 64 0xff), Malloc Rdata 64, Read_flash 0x8000 64,
         Free Rdata, Free Dhex, Leave_progmode, Nvm_deinit]\<rparr>)"
proof -
  let ?E = "sim_env tiny_flash 0 0x3f"
  have g: "nvm_get_flash_info ?E s = ((0, tiny_flash), ())" for s
    by (simp add: sim_env_def)
  have ld: "load_hex ?E ''fw.hex'' tiny_flash w =
      (Inr one_page, \<lparr>dev = (), trace = trace w @ [Get_hex_info ''fw.hex'', Malloc Dhex 104,
                                                   Get_hex_info ''fw.hex'']\<rparr>)" for w
    by (simp add: load_hex_def sim_env_def tiny_flash_def call_def hex_zero_def one_page_def)
  have er: "nvm_chip_erase ?E s = (0, ())" for s
    by (simp add: sim_env_def)
  have wr: "nvm_write_flash ?E a d s = (0, ())" for a d s
    by (simp add: sim_env_def)
  have pg: "addr_from one_page = 0x8000"
    "take (unat (len one_page)) (data one_page) = replicate 64 0xff"
    by (simp_all add: one_page_def)
  have fl: "updi_flash ?E ''fw.hex'' True w =
     (0, \<lparr>dev = (), trace = trace w @
        [Get_flash_info, Get_hex_info ''fw.hex'', Malloc Dhex 104, Get_hex_info ''fw.hex'',
         Chip_erase, Write_flash 0x8000 (replicate 64 0xff),
         Malloc Rdata 64, Read_flash 0x8000 64, Free Rdata, Free Dhex]\<rparr>)" for w
    by (simp add: updi_flash_def call_def g ld er wr pg verify_one_page unload_hex_def
          record_ev_def)
  have env: "get_chip_info ?E n" "updi_nvm_init ?E p b s = (True, ())"
    "nvm_get_device_info ?E s = (0, ())" "nvm_enter_progmode ?E s = (0, ())"
    "nvm_leave_progmode ?E s = (0, ())" "updi_nvm_deinit ?E s = ((), ())" for n p b s
    by (simp_all add: sim_env_def)
  show ?thesis
    by (simp add: main_def Let_def main_info_def main_progmode_def main_erase_def
          main_fuses_def main_file_def main_read_def main_write_def fl env
          file_opts_def main_flag_def flag_prog_bits and_then_def
          fail_with_def call_def world0_def)
qed

theorem main_file_only_witness:
  "main (sim_env tiny_flash 0 0x3f) file_opts world0 =
     (0, \<lparr>dev = (), trace =
        [Nvm_init, Get_device_info, Enter_progmode, Get_device_info, Get_flash_info,
         Get_hex_info ''fw.hex'', Malloc Dhex 104, Get_hex_info ''fw.hex'', Chip_erase,
         Write_flash 0x8000 (replicate 64 0xff), Malloc Rdata 64, Read_flash 0x8000 64,
         Free Rdata, Free Dhex, Leave_progmode, Nvm_deinit]\<rparr>)"
proof -
  have f: "file_name file_opts = Some ''fw.hex''" and z: "flag file_opts = 0"
    by (simp_all add: file_opts_def)
  have four: "SET_BIT 0 FLAG_PROG = 4"
    by (simp add: SET_BIT_def FLAG_PROG_def)
  from main_file_only [OF f z, of "sim_env tiny_flash 0 0x3f" world0]
  have "main (sim_env tiny_flash 0 0x3f) file_opts world0 =
          main (sim_env tiny_flash 0 0x3f) (file_opts\<lparr>flag := 4\<rparr>) world0"
    unfolding four by blast
  then show ?thesis
    unfolding main_prog_one_page .
qed

end
